theory Spec2Isabelle
  imports Complex_Main
begin

section \<open>Values and errors\<close>

text \<open>
  The network computes on JavaScript numbers. A number is modelled as an exact real
  (rounding and overflow of IEEE doubles are not modelled); \<open>NaN\<close> and \<open>undefined\<close>
  are kept apart from the numbers, since the code produces them when it reads an array
  out of range. The only exception the code can raise is the \<open>TypeError\<close> of a
  property read on \<open>undefined\<close>.
\<close>

datatype jsval = Num real | NaN | Undefined

text \<open>(The field \<open>cached.output\<close> is written \<open>output'\<close> below: \<open>output\<close> is a keyword.)\<close>

datatype error = TypeError

text \<open>The operators \<open>a + b\<close>, \<open>a * b\<close> and \<open>-a\<close> on numbers, \<open>NaN\<close> and \<open>undefined\<close>.\<close>

fun jadd :: "jsval \<Rightarrow> jsval \<Rightarrow> jsval" where
  "jadd (Num a) (Num b) = Num (a + b)"
| "jadd _ _ = NaN"

fun jmul :: "jsval \<Rightarrow> jsval \<Rightarrow> jsval" where
  "jmul (Num a) (Num b) = Num (a * b)"
| "jmul _ _ = NaN"

fun jneg :: "jsval \<Rightarrow> jsval" where
  "jneg (Num a) = Num (- a)"
| "jneg _ = NaN"

text \<open>\<open>xs[i]\<close> on an array of numbers: \<open>undefined\<close> out of range.\<close>

definition idx :: "jsval list \<Rightarrow> nat \<Rightarrow> jsval" where
  "idx xs i = (if i < length xs then xs ! i else Undefined)"

text \<open>
  \<open>xs.forEach\<close> and \<open>xs.map\<close> with a callback that may throw: the first exception
  ends the loop. The state a thrown call leaves behind is not modelled.
\<close>

fun mapE :: "('a \<Rightarrow> error + 'b) \<Rightarrow> 'a list \<Rightarrow> error + 'b list" where
  "mapE f [] = Inr []"
| "mapE f (x # xs) =
     (case f x of
        Inl e \<Rightarrow> Inl e
      | Inr y \<Rightarrow> (case mapE f xs of Inl e \<Rightarrow> Inl e | Inr ys \<Rightarrow> Inr (y # ys)))"

section \<open>Nodes and networks\<close>

record cached =
  input :: jsval
  output' :: jsval
  weightUpdates :: "jsval list"
  biasUpdate :: jsval
  errorWrtIn :: jsval

record node =
  weights :: "jsval list"
  bias :: jsval
  cached :: cached

text \<open>
  The definition object handed to \<open>Network\<close>. Nodes are taken to be distinct objects
  (as \<open>Network.node\<close> creates them), so a layer is a list of node values. The injected
  functions are taken to be pure.
\<close>

record netdef =
  network :: "node list list"
  updateMultiplier :: jsval
  activationFunction :: "jsval \<Rightarrow> jsval"
  activationFunctionDerivative :: "jsval \<Rightarrow> jsval"
  errorFunction :: "jsval \<Rightarrow> jsval \<Rightarrow> jsval"
  errorFunctionDerivative :: "jsval \<Rightarrow> jsval \<Rightarrow> jsval"

text \<open>\<open>function Network(definition)\<close>: stores the definition, nothing else.\<close>

definition Network :: "netdef \<Rightarrow> error + netdef" where
  "Network d = Inr d"

text \<open>\<open>Network.node(weights, bias)\<close>.\<close>

definition node_new :: "jsval list \<Rightarrow> jsval \<Rightarrow> node" where
  "node_new ws b =
     \<lparr>weights = ws, bias = b,
      cached = \<lparr>input = Num 0, output' = Num 0,
                weightUpdates = map (\<lambda>_. Num 0) ws,
                biasUpdate = Num 0, errorWrtIn = Num 0\<rparr>\<rparr>"

section \<open>Forward pass\<close>

text \<open>
  \<open>node.weights.reduce((v, w, i) => v + lastLayer[i].cached.output * w, v0)\<close>, from
  index \<open>i\<close> on. \<open>lastLayer[i]\<close> out of range is \<open>undefined\<close>, whose \<open>cached\<close> throws.
\<close>

fun reduceWeights :: "node list \<Rightarrow> jsval list \<Rightarrow> nat \<Rightarrow> jsval \<Rightarrow> error + jsval" where
  "reduceWeights lastLayer [] i v = Inr v"
| "reduceWeights lastLayer (w # ws) i v =
     (if i < length lastLayer
      then reduceWeights lastLayer ws (Suc i) (jadd v (jmul (output' (cached (lastLayer ! i))) w))
      else Inl TypeError)"

text \<open>The body of \<open>layer.forEach\<close> in \<open>feedInputs\<close>.\<close>

definition forwardNode :: "(jsval \<Rightarrow> jsval) \<Rightarrow> node list \<Rightarrow> node \<Rightarrow> error + node" where
  "forwardNode af lastLayer n =
     (case reduceWeights lastLayer (weights n) 0 (Num 0) of
        Inl e \<Rightarrow> Inl e
      | Inr s \<Rightarrow>
          (let inp = jadd s (bias n)
           in Inr (n\<lparr>cached := (cached n)\<lparr>input := inp, output' := af inp\<rparr>\<rparr>)))"

text \<open>
  The loop \<open>for (i = 1; i < network.length; i++)\<close>: \<open>lastLayer\<close> is the layer before,
  as the loop has left it; \<open>layers\<close> are the layers from index \<open>i\<close> on.
\<close>

fun forwardLayers :: "(jsval \<Rightarrow> jsval) \<Rightarrow> node list \<Rightarrow> node list list \<Rightarrow> error + node list list" where
  "forwardLayers af lastLayer [] = Inr []"
| "forwardLayers af lastLayer (layer # layers) =
     (case mapE (forwardNode af lastLayer) layer of
        Inl e \<Rightarrow> Inl e
      | Inr layer' \<Rightarrow>
          (case forwardLayers af layer' layers of
             Inl e \<Rightarrow> Inl e
           | Inr layers' \<Rightarrow> Inr (layer' # layers')))"

text \<open>\<open>network[0].forEach(function(node, i){ node.cached.output = inputs[i]; })\<close>.\<close>

definition setInputs :: "jsval list \<Rightarrow> node list \<Rightarrow> node list" where
  "setInputs inputs layer =
     map (\<lambda>i. (layer ! i)\<lparr>cached := (cached (layer ! i))\<lparr>output' := idx inputs i\<rparr>\<rparr>)
       [0..<length layer]"

text \<open>\<open>Network.prototype.feedInputs\<close>. \<open>network[0]\<close> of an empty array is \<open>undefined\<close>.\<close>

definition feedInputs :: "netdef \<Rightarrow> jsval list \<Rightarrow> error + netdef" where
  "feedInputs d inputs =
     (case network d of
        [] \<Rightarrow> Inl TypeError
      | layer0 # layers \<Rightarrow>
          (let layer0' = setInputs inputs layer0
           in case forwardLayers (activationFunction d) layer0' layers of
                Inl e \<Rightarrow> Inl e
              | Inr layers' \<Rightarrow> Inr (d\<lparr>network := layer0' # layers'\<rparr>)))"

section \<open>Outputs and total error\<close>

text \<open>\<open>Network.prototype.outputs\<close>.\<close>

definition outputs :: "netdef \<Rightarrow> error + jsval list" where
  "outputs d =
     (case network d of
        [] \<Rightarrow> Inl TypeError
      | _ # _ \<Rightarrow> Inr (map (\<lambda>n. output' (cached n)) (last (network d))))"

text \<open>
  \<open>layer.reduce((sum, node, i) => sum + errorFunction(node.cached.output, expected[i]), sum0)\<close>,
  from index \<open>i\<close> on.
\<close>

fun reduceError :: "(jsval \<Rightarrow> jsval \<Rightarrow> jsval) \<Rightarrow> jsval list \<Rightarrow> node list \<Rightarrow> nat \<Rightarrow> jsval \<Rightarrow> jsval" where
  "reduceError ef expected [] i s = s"
| "reduceError ef expected (n # ns) i s =
     reduceError ef expected ns (Suc i) (jadd s (ef (output' (cached n)) (idx expected i)))"

text \<open>\<open>Network.prototype.totalError\<close>. It assigns nothing, so it returns a value only.\<close>

definition totalError :: "netdef \<Rightarrow> jsval list \<Rightarrow> error + jsval" where
  "totalError d expected =
     (case network d of
        [] \<Rightarrow> Inl TypeError
      | _ # _ \<Rightarrow> Inr (reduceError (errorFunction d) expected (last (network d)) 0 (Num 0)))"

section \<open>Training step\<close>

text \<open>
  \<open>node.weights.map((weight, i) => f(previousLayer[i].cached.output))\<close>: one update per
  weight; \<open>previousLayer\<close> may be \<open>undefined\<close> (a network of one layer), and
  \<open>previousLayer[i]\<close> is \<open>undefined\<close> out of range.
\<close>

definition mapWeights :: "(jsval \<Rightarrow> jsval) \<Rightarrow> node list option \<Rightarrow> node \<Rightarrow> error + jsval list" where
  "mapWeights f previousLayer n =
     mapE (\<lambda>i. case previousLayer of
                 None \<Rightarrow> Inl TypeError
               | Some pl \<Rightarrow>
                   if i < length pl then Inr (f (output' (cached (pl ! i)))) else Inl TypeError)
       [0..<length (weights n)]"

text \<open>The body of \<open>network[network.length-1].forEach((node, i) => ...)\<close>.\<close>

definition proposeOutputNode :: "netdef \<Rightarrow> node list option \<Rightarrow> jsval list \<Rightarrow> node \<Rightarrow> nat \<Rightarrow> error + node" where
  "proposeOutputNode d previousLayer expected n i =
     (let errorWrtOut = errorFunctionDerivative d (output' (cached n)) (idx expected i);
          outWrtIn = activationFunctionDerivative d (input (cached n));
          ewi = jmul errorWrtOut outWrtIn
      in case mapWeights (\<lambda>inWrtWeight. jneg (jmul (jmul ewi inWrtWeight) (updateMultiplier d)))
                previousLayer n of
           Inl e \<Rightarrow> Inl e
         | Inr wu \<Rightarrow>
             Inr (n\<lparr>cached := (cached n)\<lparr>errorWrtIn := ewi, weightUpdates := wu,
                      biasUpdate := jmul (jmul ewi (Num 1)) (updateMultiplier d)\<rparr>\<rparr>))"

text \<open>
  The output-layer phase. \<open>previousLayer = network[network.length-2]\<close> is \<open>undefined\<close>
  when the network has one layer.
\<close>

definition proposeOutput :: "netdef \<Rightarrow> jsval list \<Rightarrow> error + netdef" where
  "proposeOutput d expected =
     (let net = network d;
          previousLayer = (if 2 \<le> length net then Some (net ! (length net - 2)) else None)
      in case net of
           [] \<Rightarrow> Inl TypeError
         | _ # _ \<Rightarrow>
             (case mapE (\<lambda>i. proposeOutputNode d previousLayer expected (last net ! i) i)
                     [0..<length (last net)] of
                Inl e \<Rightarrow> Inl e
              | Inr layer' \<Rightarrow> Inr (d\<lparr>network := net[length net - 1 := layer']\<rparr>)))"

text \<open>The body of \<open>network[i].forEach((node, i) => ...)\<close> in the loop over hidden layers.\<close>

definition proposeHiddenNode :: "netdef \<Rightarrow> node list \<Rightarrow> node list \<Rightarrow> node \<Rightarrow> nat \<Rightarrow> error + node" where
  "proposeHiddenNode d previousLayer nextLayer n i =
     (let errorWrtOut =
            foldl (\<lambda>s nextNode.
                     jadd s (jmul (errorWrtIn (cached nextNode)) (idx (weights nextNode) i)))
              (Num 0) nextLayer;
          outWrtIn = activationFunctionDerivative d (input (cached n));
          ewi = jmul errorWrtOut outWrtIn
      in case mapWeights
                (\<lambda>inWrtWeight. jmul (jmul (jmul (Num (- 1)) ewi) inWrtWeight) (updateMultiplier d))
                (Some previousLayer) n of
           Inl e \<Rightarrow> Inl e
         | Inr wu \<Rightarrow>
             Inr (n\<lparr>cached := (cached n)\<lparr>errorWrtIn := ewi, weightUpdates := wu,
                      biasUpdate := jmul (jmul ewi (Num 1)) (updateMultiplier d)\<rparr>\<rparr>))"

text \<open>
  The loop \<open>for (i = network.length-2; i > 0; i--)\<close>, with \<open>i\<close> the first argument:
  layer \<open>i\<close> is rewritten from layers \<open>i-1\<close> and \<open>i+1\<close> of the current state.
\<close>

fun hiddenLoop :: "netdef \<Rightarrow> nat \<Rightarrow> node list list \<Rightarrow> error + node list list" where
  "hiddenLoop d 0 net = Inr net"
| "hiddenLoop d (Suc j) net =
     (case mapE (\<lambda>i. proposeHiddenNode d (net ! j) (net ! Suc (Suc j)) (net ! Suc j ! i) i)
             [0..<length (net ! Suc j)] of
        Inl e \<Rightarrow> Inl e
      | Inr layer' \<Rightarrow> hiddenLoop d j (net[Suc j := layer']))"

text \<open>
  The hidden-layer phase. For a network of one layer \<open>network.length-2\<close> is \<open>-1\<close> and the
  loop does not run, as with the truncated subtraction here.
\<close>

definition proposeHidden :: "netdef \<Rightarrow> error + netdef" where
  "proposeHidden d =
     (case hiddenLoop d (length (network d) - 2) (network d) of
        Inl e \<Rightarrow> Inl e
      | Inr net' \<Rightarrow> Inr (d\<lparr>network := net'\<rparr>))"

text \<open>\<open>node.weights = node.weights.map((w,i) => w + node.cached.weightUpdates[i])\<close>.\<close>

definition applyNode :: "node \<Rightarrow> node" where
  "applyNode n =
     n\<lparr>weights := map (\<lambda>i. jadd (weights n ! i) (idx (weightUpdates (cached n)) i))
                    [0..<length (weights n)]\<rparr>"

text \<open>The apply phase: every node of every layer.\<close>

definition applyUpdates :: "netdef \<Rightarrow> netdef" where
  "applyUpdates d = d\<lparr>network := map (map applyNode) (network d)\<rparr>"

text \<open>The two proposal phases together: the state before the apply phase.\<close>

definition proposeUpdates :: "netdef \<Rightarrow> jsval list \<Rightarrow> error + netdef" where
  "proposeUpdates d expected =
     (case proposeOutput d expected of
        Inl e \<Rightarrow> Inl e
      | Inr d2 \<Rightarrow> proposeHidden d2)"

text \<open>
  \<open>Network.prototype.trainingStep\<close>. The values of \<open>totalError\<close> and \<open>outputs\<close> are
  computed and not used.
\<close>

definition trainingStep :: "netdef \<Rightarrow> jsval list \<Rightarrow> jsval list \<Rightarrow> error + netdef" where
  "trainingStep d inputs expected =
     (case feedInputs d inputs of
        Inl e \<Rightarrow> Inl e
      | Inr d1 \<Rightarrow>
          (case totalError d1 expected of
             Inl e \<Rightarrow> Inl e
           | Inr err \<Rightarrow>
               (case outputs d1 of
                  Inl e \<Rightarrow> Inl e
                | Inr outs \<Rightarrow>
                    (case proposeUpdates d1 expected of
                       Inl e \<Rightarrow> Inl e
                     | Inr d3 \<Rightarrow> Inr (applyUpdates d3)))))"

section \<open>The example network\<close>

text \<open>
  The functions of \<open>example.js\<close>. Every operator of theirs yields \<open>NaN\<close> on
  \<open>NaN\<close> and on \<open>undefined\<close>.
\<close>

text \<open>\<open>1 / ( 1 + Math.exp(-val) )\<close>\<close>

fun example_activationFunction :: "jsval \<Rightarrow> jsval" where
  "example_activationFunction (Num val) = Num (1 / (1 + exp (- val)))"
| "example_activationFunction _ = NaN"

text \<open>\<open>const a = 1 / ( 1 + Math.exp(-val) ); return a * (1 - a)\<close>\<close>

fun example_activationFunctionDerivative :: "jsval \<Rightarrow> jsval" where
  "example_activationFunctionDerivative (Num val) =
     (let a = 1 / (1 + exp (- val)) in Num (a * (1 - a)))"
| "example_activationFunctionDerivative _ = NaN"

text \<open>\<open>0.5 * Math.pow(expected - output, 2)\<close>\<close>

fun example_errorFunction :: "jsval \<Rightarrow> jsval \<Rightarrow> jsval" where
  "example_errorFunction (Num out) (Num expected) = Num (0.5 * (expected - out) ^ 2)"
| "example_errorFunction _ _ = NaN"

text \<open>\<open>output - expected\<close>\<close>

fun example_errorFunctionDerivative :: "jsval \<Rightarrow> jsval \<Rightarrow> jsval" where
  "example_errorFunctionDerivative (Num out) (Num expected) = Num (out - expected)"
| "example_errorFunctionDerivative _ _ = NaN"

text \<open>The definition object of \<open>example.js\<close>.\<close>

definition example :: netdef where
  "example =
     \<lparr>network =
        [[node_new [] (Num 0), node_new [] (Num 0)],
         [node_new [Num 0.15, Num 0.2] (Num 0.35), node_new [Num 0.25, Num 0.3] (Num 0.35)],
         [node_new [Num 0.4, Num 0.45] (Num 0.6), node_new [Num 0.5, Num 0.55] (Num 0.6)]],
      updateMultiplier = Num 0.5,
      activationFunction = example_activationFunction,
      activationFunctionDerivative = example_activationFunctionDerivative,
      errorFunction = example_errorFunction,
      errorFunctionDerivative = example_errorFunctionDerivative\<rparr>"

text \<open>
  A network of one input and one output node with the identity as activation function,
  small enough to run a training step by hand.
\<close>

definition linear_net :: netdef where
  "linear_net =
     \<lparr>network = [[node_new [] (Num 0)], [node_new [Num 1] (Num 0)]],
      updateMultiplier = Num 1,
      activationFunction = (\<lambda>val. val),
      activationFunctionDerivative = (\<lambda>val. Num 1),
      errorFunction = (\<lambda>out expected. jmul (jadd out (jneg expected)) (jadd out (jneg expected))),
      errorFunctionDerivative = (\<lambda>out expected. jadd out (jneg expected))\<rparr>"

section \<open>Well-formed topologies\<close>

text \<open>
  The shape the example builds: at least an input and an output layer, and every node
  after the input layer with one weight per node of the layer before. On such a
  network no property read of the code fails.
\<close>

definition wellFormed :: "netdef \<Rightarrow> bool" where
  "wellFormed d =
     (2 \<le> length (network d) \<and>
      (\<forall>l\<in>{1..<length (network d)}. \<forall>n\<in>set (network d ! l).
         length (weights n) = length (network d ! (l - 1))))"

section \<open>Auxiliary facts about the loops\<close>

lemma jmul_commute: "jmul a b = jmul b a"
  by (cases a; cases b) simp_all

lemma mapE_Inr_length: "mapE f xs = Inr ys \<Longrightarrow> length ys = length xs"
  by (induction xs arbitrary: ys) (auto split: sum.splits)

lemma mapE_Inr_nth: "mapE f xs = Inr ys \<Longrightarrow> i < length xs \<Longrightarrow> f (xs ! i) = Inr (ys ! i)"
proof (induction xs arbitrary: ys i)
  case Nil
  then show ?case by simp
next
  case (Cons x xs)
  then show ?case by (cases i) (auto split: sum.splits)
qed

lemma mapE_total: "(\<And>x. x \<in> set xs \<Longrightarrow> \<exists>y. f x = Inr y) \<Longrightarrow> \<exists>ys. mapE f xs = Inr ys"
proof (induction xs)
  case Nil
  then show ?case by simp
next
  case (Cons x xs)
  then obtain y where "f x = Inr y" by force
  moreover from Cons obtain ys where "mapE f xs = Inr ys" by force
  ultimately show ?case by simp
qed

lemma mapE_cong: "(\<And>x. x \<in> set xs \<Longrightarrow> f x = g x) \<Longrightarrow> mapE f xs = mapE g xs"
  by (induction xs) (auto split: sum.splits)

lemma mapE_upt_nth: "mapE f [0..<n] = Inr ys \<Longrightarrow> i < n \<Longrightarrow> f i = Inr (ys ! i)"
  using mapE_Inr_nth [of f "[0..<n]" ys i] by simp

lemma mapE_upt_length: "mapE f [0..<n] = Inr ys \<Longrightarrow> length ys = n"
  using mapE_Inr_length [of f "[0..<n]" ys] by simp

lemma foldl_upt_shift:
  "foldl f a [0..<Suc n] = foldl (\<lambda>b k. f b (Suc k)) (f a 0) [0..<n]"
proof -
  have "[0..<Suc n] = 0 # map Suc [0..<n]"
    by (simp add: upt_conv_Cons map_Suc_upt del: upt_Suc)
  then show ?thesis by (simp add: foldl_map del: upt_Suc)
qed

lemma reduceWeights_Inr:
  "reduceWeights ll ws i v = Inr s \<Longrightarrow>
     (ws \<noteq> [] \<longrightarrow> i + length ws \<le> length ll) \<and>
     s = foldl (\<lambda>a k. jadd a (jmul (output' (cached (ll ! (i + k)))) (ws ! k))) v [0..<length ws]"
proof (induction ws arbitrary: i v)
  case Nil
  then show ?case by simp
next
  case (Cons w ws)
  from Cons.prems have lt: "i < length ll"
    and rec: "reduceWeights ll ws (Suc i) (jadd v (jmul (output' (cached (ll ! i))) w)) = Inr s"
    by (auto split: if_splits)
  from Cons.IH [OF rec] lt show ?case
    by (cases ws) (simp_all add: foldl_upt_shift del: upt_Suc)
qed

lemma reduceWeights_total:
  "i + length ws \<le> length ll \<Longrightarrow> \<exists>s. reduceWeights ll ws i v = Inr s"
  by (induction ws arbitrary: i v) auto

lemma forwardNode_Inr:
  assumes "forwardNode af ll n = Inr n'"
  shows "weights n' = weights n" and "bias n' = bias n"
    and "input (cached n') =
           jadd (foldl (\<lambda>a k. jadd a (jmul (output' (cached (ll ! k))) (weights n ! k)))
                   (Num 0) [0..<length (weights n)]) (bias n)"
    and "output' (cached n') = af (input (cached n'))"
    and "weightUpdates (cached n') = weightUpdates (cached n)"
    and "biasUpdate (cached n') = biasUpdate (cached n)"
    and "errorWrtIn (cached n') = errorWrtIn (cached n)"
    and "weights n \<noteq> [] \<longrightarrow> length (weights n) \<le> length ll"
proof -
  from assms obtain s where s: "reduceWeights ll (weights n) 0 (Num 0) = Inr s"
    and n': "n' = n\<lparr>cached := (cached n)\<lparr>input := jadd s (bias n),
                                           output' := af (jadd s (bias n))\<rparr>\<rparr>"
    by (auto simp: forwardNode_def Let_def split: sum.splits)
  from reduceWeights_Inr [OF s] n'
  show "weights n' = weights n" and "bias n' = bias n"
    and "input (cached n') =
           jadd (foldl (\<lambda>a k. jadd a (jmul (output' (cached (ll ! k))) (weights n ! k)))
                   (Num 0) [0..<length (weights n)]) (bias n)"
    and "output' (cached n') = af (input (cached n'))"
    and "weightUpdates (cached n') = weightUpdates (cached n)"
    and "biasUpdate (cached n') = biasUpdate (cached n)"
    and "errorWrtIn (cached n') = errorWrtIn (cached n)"
    and "weights n \<noteq> [] \<longrightarrow> length (weights n) \<le> length ll"
    by simp_all
qed

lemma forwardNode_total:
  "length (weights n) \<le> length ll \<Longrightarrow> \<exists>n'. forwardNode af ll n = Inr n'"
  using reduceWeights_total [of 0 "weights n" ll "Num 0"]
  by (auto simp: forwardNode_def Let_def)

lemma forwardLayers_Inr:
  "forwardLayers af l0 ls = Inr ls' \<Longrightarrow>
     length ls' = length ls \<and>
     (\<forall>k<length ls. mapE (forwardNode af ((l0 # ls') ! k)) (ls ! k) = Inr (ls' ! k))"
proof (induction ls arbitrary: l0 ls')
  case Nil
  then show ?case by simp
next
  case (Cons l ls)
  from Cons.prems obtain l' rest where l': "mapE (forwardNode af l0) l = Inr l'"
    and rest: "forwardLayers af l' ls = Inr rest" and ls': "ls' = l' # rest"
    by (auto split: sum.splits)
  from Cons.IH [OF rest] have len: "length rest = length ls"
    and nth: "\<And>k. k < length ls \<Longrightarrow>
               mapE (forwardNode af ((l' # rest) ! k)) (ls ! k) = Inr (rest ! k)"
    by simp_all
  show ?case
  proof (intro conjI allI impI)
    show "length ls' = length (l # ls)" using len ls' by simp
  next
    fix k assume "k < length (l # ls)"
    then show "mapE (forwardNode af ((l0 # ls') ! k)) ((l # ls) ! k) = Inr (ls' ! k)"
      using l' nth ls' by (cases k) simp_all
  qed
qed

lemma length_setInputs: "length (setInputs inputs l) = length l"
  by (simp add: setInputs_def)

lemma nth_setInputs:
  "i < length l \<Longrightarrow>
   setInputs inputs l ! i = (l ! i)\<lparr>cached := (cached (l ! i))\<lparr>output' := idx inputs i\<rparr>\<rparr>"
  by (simp add: setInputs_def)

lemma feedInputs_Inr:
  assumes "feedInputs d inputs = Inr d'"
  shows "network d \<noteq> []"
    and "d' = d\<lparr>network := network d'\<rparr>"
    and "length (network d') = length (network d)"
    and "network d' ! 0 = setInputs inputs (network d ! 0)"
    and "\<And>l. 0 < l \<Longrightarrow> l < length (network d) \<Longrightarrow>
           mapE (forwardNode (activationFunction d) (network d' ! (l - 1))) (network d ! l)
             = Inr (network d' ! l)"
proof -
  from assms obtain l0 ls ls' where net: "network d = l0 # ls"
    and fl: "forwardLayers (activationFunction d) (setInputs inputs l0) ls = Inr ls'"
    and d': "d' = d\<lparr>network := setInputs inputs l0 # ls'\<rparr>"
    by (auto simp: feedInputs_def Let_def split: list.splits sum.splits)
  note fl' = forwardLayers_Inr [OF fl]
  show "network d \<noteq> []" using net by simp
  show "d' = d\<lparr>network := network d'\<rparr>" using d' by simp
  show "length (network d') = length (network d)" using net d' fl' by simp
  show "network d' ! 0 = setInputs inputs (network d ! 0)" using net d' by simp
  fix l assume l: "0 < l" "l < length (network d)"
  then obtain k where k: "l = Suc k" by (cases l) auto
  with l net have "k < length ls" by simp
  with fl' have "mapE (forwardNode (activationFunction d) ((setInputs inputs l0 # ls') ! k)) (ls ! k)
                   = Inr (ls' ! k)" by simp
  then show "mapE (forwardNode (activationFunction d) (network d' ! (l - 1))) (network d ! l)
             = Inr (network d' ! l)"
    using k net d' by simp
qed

lemma feedInputs_layer_length:
  assumes "feedInputs d inputs = Inr d'" and "l < length (network d)"
  shows "length (network d' ! l) = length (network d ! l)"
proof (cases l)
  case 0
  then show ?thesis using feedInputs_Inr(4) [OF assms(1)] by (simp add: length_setInputs)
next
  case (Suc k)
  then show ?thesis
    using feedInputs_Inr(5) [OF assms(1), of l] assms(2) mapE_Inr_length by fastforce
qed

lemma feedInputs_node:
  assumes "feedInputs d inputs = Inr d'" and "0 < l" and "l < length (network d)"
    and "k < length (network d ! l)"
  shows "forwardNode (activationFunction d) (network d' ! (l - 1)) (network d ! l ! k)
           = Inr (network d' ! l ! k)"
  using feedInputs_Inr(5) [OF assms(1-3)] assms(4) by (rule mapE_Inr_nth)

lemma jmul_one: "jmul (jmul (jmul a b) (Num 1)) c = jmul (jmul a b) c"
  by (cases a; cases b) simp_all

lemma mapWeights_Inr:
  assumes "mapWeights f prev n = Inr wu"
  shows "length wu = length (weights n)"
    and "\<And>j. j < length (weights n) \<Longrightarrow>
           \<exists>pl. prev = Some pl \<and> j < length pl \<and> wu ! j = f (output' (cached (pl ! j)))"
proof -
  from assms show "length wu = length (weights n)"
    unfolding mapWeights_def by (rule mapE_upt_length)
  fix j assume "j < length (weights n)"
  with assms have "(case prev of None \<Rightarrow> Inl TypeError
           | Some pl \<Rightarrow> if j < length pl then Inr (f (output' (cached (pl ! j)))) else Inl TypeError)
         = Inr (wu ! j)"
    unfolding mapWeights_def by (rule mapE_upt_nth)
  then show "\<exists>pl. prev = Some pl \<and> j < length pl \<and> wu ! j = f (output' (cached (pl ! j)))"
    by (auto split: option.splits if_splits)
qed

lemma mapWeights_total:
  "length (weights n) \<le> length pl \<Longrightarrow> \<exists>wu. mapWeights f (Some pl) n = Inr wu"
  unfolding mapWeights_def by (rule mapE_total) auto

lemma proposeOutputNode_Inr:
  assumes "proposeOutputNode d prev expected n i = Inr n'"
  shows "weights n' = weights n" and "bias n' = bias n"
    and "input (cached n') = input (cached n)" and "output' (cached n') = output' (cached n)"
    and "errorWrtIn (cached n') =
           jmul (errorFunctionDerivative d (output' (cached n)) (idx expected i))
                (activationFunctionDerivative d (input (cached n)))"
    and "biasUpdate (cached n') = jmul (errorWrtIn (cached n')) (updateMultiplier d)"
    and "length (weightUpdates (cached n')) = length (weights n)"
    and "\<And>j. j < length (weights n) \<Longrightarrow>
           \<exists>pl. prev = Some pl \<and> j < length pl \<and>
             weightUpdates (cached n') ! j =
               jneg (jmul (jmul (errorWrtIn (cached n')) (output' (cached (pl ! j))))
                          (updateMultiplier d))"
proof -
  define ewi where "ewi = jmul (errorFunctionDerivative d (output' (cached n)) (idx expected i))
                (activationFunctionDerivative d (input (cached n)))"
  from assms obtain wu where
    wu: "mapWeights (\<lambda>inWrtWeight. jneg (jmul (jmul ewi inWrtWeight) (updateMultiplier d))) prev n
           = Inr wu"
    and n': "n' = n\<lparr>cached := (cached n)\<lparr>errorWrtIn := ewi, weightUpdates := wu,
                      biasUpdate := jmul (jmul ewi (Num 1)) (updateMultiplier d)\<rparr>\<rparr>"
    by (auto simp: proposeOutputNode_def Let_def ewi_def split: sum.splits)
  have e: "errorWrtIn (cached n') = ewi" using n' by simp
  show "weights n' = weights n" and "bias n' = bias n"
    and "input (cached n') = input (cached n)" and "output' (cached n') = output' (cached n)"
    using n' by simp_all
  show "errorWrtIn (cached n') =
           jmul (errorFunctionDerivative d (output' (cached n)) (idx expected i))
                (activationFunctionDerivative d (input (cached n)))"
    using e ewi_def by simp
  show "biasUpdate (cached n') = jmul (errorWrtIn (cached n')) (updateMultiplier d)"
    using n' by (simp add: ewi_def jmul_one)
  show "length (weightUpdates (cached n')) = length (weights n)"
    using n' mapWeights_Inr(1) [OF wu] by simp
  fix j assume "j < length (weights n)"
  from mapWeights_Inr(2) [OF wu this] n' e
  show "\<exists>pl. prev = Some pl \<and> j < length pl \<and>
             weightUpdates (cached n') ! j =
               jneg (jmul (jmul (errorWrtIn (cached n')) (output' (cached (pl ! j))))
                          (updateMultiplier d))"
    by auto
qed

lemma proposeOutputNode_total:
  assumes "length (weights n) \<le> length pl"
  shows "\<exists>n'. proposeOutputNode d (Some pl) expected n i = Inr n'"
proof -
  define ewi where "ewi = jmul (errorFunctionDerivative d (output' (cached n)) (idx expected i))
                (activationFunctionDerivative d (input (cached n)))"
  from mapWeights_total [OF assms] obtain wu where
    "mapWeights (\<lambda>inWrtWeight. jneg (jmul (jmul ewi inWrtWeight) (updateMultiplier d))) (Some pl) n
       = Inr wu"
    by blast
  then show ?thesis by (simp add: proposeOutputNode_def Let_def ewi_def)
qed

lemma proposeHiddenNode_Inr:
  assumes "proposeHiddenNode d pl nextLayer n i = Inr n'"
  shows "weights n' = weights n" and "bias n' = bias n"
    and "input (cached n') = input (cached n)" and "output' (cached n') = output' (cached n)"
    and "errorWrtIn (cached n') =
           jmul (foldl (\<lambda>s nextNode.
                     jadd s (jmul (errorWrtIn (cached nextNode)) (idx (weights nextNode) i)))
                  (Num 0) nextLayer)
                (activationFunctionDerivative d (input (cached n)))"
    and "biasUpdate (cached n') = jmul (errorWrtIn (cached n')) (updateMultiplier d)"
    and "length (weightUpdates (cached n')) = length (weights n)"
    and "\<And>j. j < length (weights n) \<Longrightarrow>
           j < length pl \<and>
             weightUpdates (cached n') ! j =
               jmul (jmul (jmul (Num (- 1)) (errorWrtIn (cached n'))) (output' (cached (pl ! j))))
                    (updateMultiplier d)"
proof -
  define ewi where "ewi = jmul (foldl (\<lambda>s nextNode.
                     jadd s (jmul (errorWrtIn (cached nextNode)) (idx (weights nextNode) i)))
                  (Num 0) nextLayer)
                (activationFunctionDerivative d (input (cached n)))"
  from assms obtain wu where
    wu: "mapWeights (\<lambda>inWrtWeight. jmul (jmul (jmul (Num (- 1)) ewi) inWrtWeight) (updateMultiplier d))
           (Some pl) n = Inr wu"
    and n': "n' = n\<lparr>cached := (cached n)\<lparr>errorWrtIn := ewi, weightUpdates := wu,
                      biasUpdate := jmul (jmul ewi (Num 1)) (updateMultiplier d)\<rparr>\<rparr>"
    by (auto simp: proposeHiddenNode_def Let_def ewi_def split: sum.splits)
  have e: "errorWrtIn (cached n') = ewi" using n' by simp
  show "weights n' = weights n" and "bias n' = bias n"
    and "input (cached n') = input (cached n)" and "output' (cached n') = output' (cached n)"
    using n' by simp_all
  show "errorWrtIn (cached n') =
           jmul (foldl (\<lambda>s nextNode.
                     jadd s (jmul (errorWrtIn (cached nextNode)) (idx (weights nextNode) i)))
                  (Num 0) nextLayer)
                (activationFunctionDerivative d (input (cached n)))"
    using e ewi_def by simp
  show "biasUpdate (cached n') = jmul (errorWrtIn (cached n')) (updateMultiplier d)"
    using n' by (simp add: ewi_def jmul_one)
  show "length (weightUpdates (cached n')) = length (weights n)"
    using n' mapWeights_Inr(1) [OF wu] by simp
  fix j assume "j < length (weights n)"
  from mapWeights_Inr(2) [OF wu this] n' e
  show "j < length pl \<and>
             weightUpdates (cached n') ! j =
               jmul (jmul (jmul (Num (- 1)) (errorWrtIn (cached n'))) (output' (cached (pl ! j))))
                    (updateMultiplier d)"
    by auto
qed

lemma proposeHiddenNode_total:
  assumes "length (weights n) \<le> length pl"
  shows "\<exists>n'. proposeHiddenNode d pl nextLayer n i = Inr n'"
proof -
  define ewi where "ewi = jmul (foldl (\<lambda>s nextNode.
                     jadd s (jmul (errorWrtIn (cached nextNode)) (idx (weights nextNode) i)))
                  (Num 0) nextLayer)
                (activationFunctionDerivative d (input (cached n)))"
  from mapWeights_total [OF assms] obtain wu where
    "mapWeights (\<lambda>inWrtWeight. jmul (jmul (jmul (Num (- 1)) ewi) inWrtWeight) (updateMultiplier d))
       (Some pl) n = Inr wu"
    by blast
  then show ?thesis by (simp add: proposeHiddenNode_def Let_def ewi_def)
qed

lemma proposeOutput_Inr:
  assumes "proposeOutput d expected = Inr d2"
  shows "network d \<noteq> []"
    and "d2 = d\<lparr>network := network d2\<rparr>"
    and "length (network d2) = length (network d)"
    and "\<And>l. l \<noteq> length (network d) - 1 \<Longrightarrow> network d2 ! l = network d ! l"
    and "length (network d2 ! (length (network d) - 1)) = length (network d ! (length (network d) - 1))"
    and "\<And>i. i < length (network d ! (length (network d) - 1)) \<Longrightarrow>
           proposeOutputNode d
             (if 2 \<le> length (network d) then Some (network d ! (length (network d) - 2)) else None)
             expected (network d ! (length (network d) - 1) ! i) i
           = Inr (network d2 ! (length (network d) - 1) ! i)"
proof -
  let ?net = "network d"
  let ?prev = "if 2 \<le> length ?net then Some (?net ! (length ?net - 2)) else None"
  from assms have ne: "?net \<noteq> []"
    by (auto simp: proposeOutput_def Let_def split: list.splits)
  then have last: "last ?net = ?net ! (length ?net - 1)" by (rule last_conv_nth)
  from assms ne obtain layer' where
    m: "mapE (\<lambda>i. proposeOutputNode d ?prev expected (last ?net ! i) i) [0..<length (last ?net)]
          = Inr layer'"
    and d2: "d2 = d\<lparr>network := ?net[length ?net - 1 := layer']\<rparr>"
    by (auto simp: proposeOutput_def Let_def split: list.splits sum.splits)
  have lt: "length ?net - 1 < length ?net" using ne by (cases ?net) simp_all
  show "network d \<noteq> []" by (rule ne)
  show "d2 = d\<lparr>network := network d2\<rparr>" using d2 by simp
  show "length (network d2) = length ?net" using d2 by simp
  show "\<And>l. l \<noteq> length ?net - 1 \<Longrightarrow> network d2 ! l = ?net ! l" using d2 by simp
  have l': "network d2 ! (length ?net - 1) = layer'" using d2 lt by simp
  show "length (network d2 ! (length ?net - 1)) = length (?net ! (length ?net - 1))"
    using mapE_upt_length [OF m] l' last by simp
  fix i assume "i < length (?net ! (length ?net - 1))"
  then have "i < length (last ?net)" using last by simp
  from mapE_upt_nth [OF m this] show "proposeOutputNode d ?prev expected (?net ! (length ?net - 1) ! i) i
           = Inr (network d2 ! (length ?net - 1) ! i)"
    using l' last by simp
qed

lemma hiddenLoop_Inr:
  "hiddenLoop d i net = Inr net' \<Longrightarrow> Suc i < length net \<Longrightarrow>
     length net' = length net \<and>
     (\<forall>l. l = 0 \<or> i < l \<longrightarrow> net' ! l = net ! l) \<and>
     (\<forall>l. 0 < l \<and> l \<le> i \<longrightarrow>
        length (net' ! l) = length (net ! l) \<and>
        (\<forall>k<length (net ! l).
           proposeHiddenNode d (net ! (l - 1)) (net' ! Suc l) (net ! l ! k) k = Inr (net' ! l ! k)))"
proof (induction i arbitrary: net)
  case 0
  then show ?case by simp
next
  case (Suc j)
  let ?net2 = "\<lambda>layer'. net[Suc j := layer']"
  from Suc.prems obtain layer' where
    m: "mapE (\<lambda>i. proposeHiddenNode d (net ! j) (net ! Suc (Suc j)) (net ! Suc j ! i) i)
             [0..<length (net ! Suc j)] = Inr layer'"
    and rec: "hiddenLoop d j (net[Suc j := layer']) = Inr net'"
    by (auto split: sum.splits)
  have lt: "Suc j < length net" using Suc.prems by simp
  have lt2: "Suc j < length (net[Suc j := layer'])" using lt by simp
  note IH = Suc.IH [OF rec lt2]
  from IH have len: "length net' = length net" by simp
  from IH have same: "\<And>l. l = 0 \<or> j < l \<Longrightarrow> net' ! l = net[Suc j := layer'] ! l"
    by blast
  from IH have hid: "\<And>l k. 0 < l \<Longrightarrow> l \<le> j \<Longrightarrow>
        length (net' ! l) = length (net[Suc j := layer'] ! l) \<and>
        (k < length (net[Suc j := layer'] ! l) \<longrightarrow>
           proposeHiddenNode d (net[Suc j := layer'] ! (l - 1)) (net' ! Suc l)
             (net[Suc j := layer'] ! l ! k) k = Inr (net' ! l ! k))"
    by blast
  have top: "net' ! Suc j = layer'" using same [of "Suc j"] lt by simp
  have above: "net' ! Suc (Suc j) = net ! Suc (Suc j)" using same [of "Suc (Suc j)"] by simp
  show ?case
  proof (intro conjI allI impI)
    show "length net' = length net" by (rule len)
  next
    fix l assume "l = 0 \<or> Suc j < l"
    then show "net' ! l = net ! l" using same [of l] by auto
  next
    fix l assume l: "0 < l \<and> l \<le> Suc j"
    show "length (net' ! l) = length (net ! l)"
    proof (cases "l = Suc j")
      case True
      then show ?thesis using top mapE_upt_length [OF m] by simp
    next
      case False
      with l have "l \<le> j" by simp
      with hid [of l 0] l show ?thesis by simp
    qed
  next
    fix l k assume l: "0 < l \<and> l \<le> Suc j" and k: "k < length (net ! l)"
    show "proposeHiddenNode d (net ! (l - 1)) (net' ! Suc l) (net ! l ! k) k = Inr (net' ! l ! k)"
    proof (cases "l = Suc j")
      case True
      then show ?thesis using top above mapE_upt_nth [OF m] k by simp
    next
      case False
      with l have lj: "l \<le> j" by simp
      then have "net[Suc j := layer'] ! l = net ! l" "net[Suc j := layer'] ! (l - 1) = net ! (l - 1)"
        by simp_all
      with hid [of l k] l lj k show ?thesis by simp
    qed
  qed
qed

lemma hiddenLoop_total:
  "Suc i < length net \<Longrightarrow>
   (\<forall>l. 0 < l \<and> l \<le> i \<longrightarrow> (\<forall>n\<in>set (net ! l). length (weights n) \<le> length (net ! (l - 1)))) \<Longrightarrow>
   \<exists>net'. hiddenLoop d i net = Inr net'"
proof (induction i arbitrary: net)
  case 0
  then show ?case by simp
next
  case (Suc j)
  have "\<exists>layer'. mapE (\<lambda>i. proposeHiddenNode d (net ! j) (net ! Suc (Suc j)) (net ! Suc j ! i) i)
             [0..<length (net ! Suc j)] = Inr layer'"
  proof (rule mapE_total)
    fix x assume "x \<in> set [0..<length (net ! Suc j)]"
    then have "net ! Suc j ! x \<in> set (net ! Suc j)" by simp
    with Suc.prems(2) have "length (weights (net ! Suc j ! x)) \<le> length (net ! j)" by force
    then show "\<exists>y. proposeHiddenNode d (net ! j) (net ! Suc (Suc j)) (net ! Suc j ! x) x = Inr y"
      by (rule proposeHiddenNode_total)
  qed
  then obtain layer' where
    m: "mapE (\<lambda>i. proposeHiddenNode d (net ! j) (net ! Suc (Suc j)) (net ! Suc j ! i) i)
             [0..<length (net ! Suc j)] = Inr layer'" by blast
  have "\<exists>net'. hiddenLoop d j (net[Suc j := layer']) = Inr net'"
  proof (rule Suc.IH)
    show "Suc j < length (net[Suc j := layer'])" using Suc.prems(1) by simp
    show "\<forall>l. 0 < l \<and> l \<le> j \<longrightarrow>
        (\<forall>n\<in>set (net[Suc j := layer'] ! l).
            length (weights n) \<le> length (net[Suc j := layer'] ! (l - 1)))"
    proof (intro allI impI ballI)
      fix l n assume l: "0 < l \<and> l \<le> j" and n: "n \<in> set (net[Suc j := layer'] ! l)"
      from l have "l \<noteq> Suc j" "l - 1 \<noteq> Suc j" by arith+
      then have "net[Suc j := layer'] ! l = net ! l" "net[Suc j := layer'] ! (l - 1) = net ! (l - 1)"
        by simp_all
      with Suc.prems(2) l n show "length (weights n) \<le> length (net[Suc j := layer'] ! (l - 1))"
        by force
    qed
  qed
  with m show ?case by simp
qed

lemma proposeHidden_Inr:
  assumes "proposeHidden d = Inr d3"
  shows "d3 = d\<lparr>network := network d3\<rparr>"
    and "length (network d3) = length (network d)"
    and "\<And>l. l = 0 \<or> length (network d) - 1 \<le> l \<Longrightarrow> network d3 ! l = network d ! l"
    and "\<And>l. 0 < l \<Longrightarrow> l < length (network d) - 1 \<Longrightarrow>
           length (network d3 ! l) = length (network d ! l)"
    and "\<And>l k. 0 < l \<Longrightarrow> l < length (network d) - 1 \<Longrightarrow> k < length (network d ! l) \<Longrightarrow>
           proposeHiddenNode d (network d ! (l - 1)) (network d3 ! Suc l) (network d ! l ! k) k
             = Inr (network d3 ! l ! k)"
proof -
  from assms obtain net' where h: "hiddenLoop d (length (network d) - 2) (network d) = Inr net'"
    and d3: "d3 = d\<lparr>network := net'\<rparr>"
    by (auto simp: proposeHidden_def split: sum.splits)
  show "d3 = d\<lparr>network := network d3\<rparr>" using d3 by simp
  show "length (network d3) = length (network d)"
    and "\<And>l. l = 0 \<or> length (network d) - 1 \<le> l \<Longrightarrow> network d3 ! l = network d ! l"
    and "\<And>l. 0 < l \<Longrightarrow> l < length (network d) - 1 \<Longrightarrow>
           length (network d3 ! l) = length (network d ! l)"
    and "\<And>l k. 0 < l \<Longrightarrow> l < length (network d) - 1 \<Longrightarrow> k < length (network d ! l) \<Longrightarrow>
           proposeHiddenNode d (network d ! (l - 1)) (network d3 ! Suc l) (network d ! l ! k) k
             = Inr (network d3 ! l ! k)"
  proof -
    consider (small) "length (network d) < 2" | (big) "2 \<le> length (network d)" by linarith
    then have "length net' = length (network d) \<and>
       (\<forall>l. l = 0 \<or> length (network d) - 1 \<le> l \<longrightarrow> net' ! l = network d ! l) \<and>
       (\<forall>l. 0 < l \<and> l < length (network d) - 1 \<longrightarrow>
          length (net' ! l) = length (network d ! l) \<and>
          (\<forall>k<length (network d ! l).
             proposeHiddenNode d (network d ! (l - 1)) (net' ! Suc l) (network d ! l ! k) k
               = Inr (net' ! l ! k)))"
    proof cases
      case small
      then have "length (network d) - 2 = 0" by simp
      with h have "net' = network d" by simp
      with small show ?thesis by simp
    next
      case big
      then have lt: "Suc (length (network d) - 2) < length (network d)" by simp
      have eq: "\<And>l. (length (network d) - 2 < l) = (length (network d) - 1 \<le> l)"
        "\<And>l. (l \<le> length (network d) - 2) = (l < length (network d) - 1)"
        using big by auto
      from hiddenLoop_Inr [OF h lt] show ?thesis unfolding eq .
    qed
    moreover have "network d3 = net'" using d3 by simp
    ultimately have F: "length (network d3) = length (network d) \<and>
       (\<forall>l. l = 0 \<or> length (network d) - 1 \<le> l \<longrightarrow> network d3 ! l = network d ! l) \<and>
       (\<forall>l. 0 < l \<and> l < length (network d) - 1 \<longrightarrow>
          length (network d3 ! l) = length (network d ! l) \<and>
          (\<forall>k<length (network d ! l).
             proposeHiddenNode d (network d ! (l - 1)) (network d3 ! Suc l) (network d ! l ! k) k
               = Inr (network d3 ! l ! k)))"
      by simp
    from F show "length (network d3) = length (network d)" by blast
    from F show "\<And>l. l = 0 \<or> length (network d) - 1 \<le> l \<Longrightarrow> network d3 ! l = network d ! l"
      by blast
    from F show "\<And>l. 0 < l \<Longrightarrow> l < length (network d) - 1 \<Longrightarrow>
           length (network d3 ! l) = length (network d ! l)" by blast
    from F show "\<And>l k. 0 < l \<Longrightarrow> l < length (network d) - 1 \<Longrightarrow> k < length (network d ! l) \<Longrightarrow>
           proposeHiddenNode d (network d ! (l - 1)) (network d3 ! Suc l) (network d ! l ! k) k
             = Inr (network d3 ! l ! k)" by blast
  qed
qed

lemma trainingStep_phases:
  assumes "trainingStep d inputs expected = Inr d'"
  obtains d1 d2 d3 where "feedInputs d inputs = Inr d1"
    and "proposeOutput d1 expected = Inr d2" and "proposeHidden d2 = Inr d3"
    and "proposeUpdates d1 expected = Inr d3"
    and "d' = applyUpdates d3"
  using assms
  by (auto simp: trainingStep_def proposeUpdates_def split: sum.splits)

lemma feedInputs_frame:
  assumes "feedInputs d inputs = Inr d1" and "l < length (network d)"
    and "k < length (network d ! l)"
  shows "weights (network d1 ! l ! k) = weights (network d ! l ! k)"
    and "bias (network d1 ! l ! k) = bias (network d ! l ! k)"
    and "weightUpdates (cached (network d1 ! l ! k)) = weightUpdates (cached (network d ! l ! k))"
    and "biasUpdate (cached (network d1 ! l ! k)) = biasUpdate (cached (network d ! l ! k))"
    and "errorWrtIn (cached (network d1 ! l ! k)) = errorWrtIn (cached (network d ! l ! k))"
proof -
  have "weights (network d1 ! l ! k) = weights (network d ! l ! k) \<and>
    bias (network d1 ! l ! k) = bias (network d ! l ! k) \<and>
    weightUpdates (cached (network d1 ! l ! k)) = weightUpdates (cached (network d ! l ! k)) \<and>
    biasUpdate (cached (network d1 ! l ! k)) = biasUpdate (cached (network d ! l ! k)) \<and>
    errorWrtIn (cached (network d1 ! l ! k)) = errorWrtIn (cached (network d ! l ! k))"
  proof (cases l)
    case 0
    with assms(3) feedInputs_Inr(4) [OF assms(1)] show ?thesis
      by (simp add: nth_setInputs)
  next
    case (Suc j)
    then have "0 < l" by simp
    from feedInputs_node [OF assms(1) this assms(2,3)] show ?thesis
      by (simp add: forwardNode_Inr)
  qed
  then show "weights (network d1 ! l ! k) = weights (network d ! l ! k)"
    and "bias (network d1 ! l ! k) = bias (network d ! l ! k)"
    and "weightUpdates (cached (network d1 ! l ! k)) = weightUpdates (cached (network d ! l ! k))"
    and "biasUpdate (cached (network d1 ! l ! k)) = biasUpdate (cached (network d ! l ! k))"
    and "errorWrtIn (cached (network d1 ! l ! k)) = errorWrtIn (cached (network d ! l ! k))"
    by simp_all
qed

lemma forwardLayers_total:
  "(\<forall>k<length ls. \<forall>n\<in>set (ls ! k). length (weights n) \<le> length ((l0 # ls) ! k)) \<Longrightarrow>
   \<exists>ls'. forwardLayers af l0 ls = Inr ls'"
proof (induction ls arbitrary: l0)
  case Nil
  then show ?case by simp
next
  case (Cons l ls)
  have "\<exists>l'. mapE (forwardNode af l0) l = Inr l'"
  proof (rule mapE_total)
    fix x assume "x \<in> set l"
    with Cons.prems have "length (weights x) \<le> length l0" by force
    then show "\<exists>y. forwardNode af l0 x = Inr y" by (rule forwardNode_total)
  qed
  then obtain l' where l': "mapE (forwardNode af l0) l = Inr l'" by blast
  then have len: "length l' = length l" by (rule mapE_Inr_length)
  have "\<exists>ls'. forwardLayers af l' ls = Inr ls'"
  proof (rule Cons.IH, intro allI impI ballI)
    fix k n assume k: "k < length ls" and n: "n \<in> set (ls ! k)"
    with Cons.prems have "length (weights n) \<le> length ((l0 # l # ls) ! Suc k)" by force
    then show "length (weights n) \<le> length ((l' # ls) ! k)"
      using len by (cases k) simp_all
  qed
  with l' show ?case by auto
qed

lemma wellFormed_layer:
  assumes "wellFormed d" and "0 < l" and "l < length (network d)" and "k < length (network d ! l)"
  shows "length (weights (network d ! l ! k)) = length (network d ! (l - 1))"
  using assms by (simp add: wellFormed_def)

lemma feedInputs_total:
  assumes "wellFormed d"
  shows "\<exists>d1. feedInputs d inputs = Inr d1"
proof -
  from assms obtain l0 ls where net: "network d = l0 # ls"
    by (cases "network d") (auto simp: wellFormed_def)
  have "\<exists>ls'. forwardLayers (activationFunction d) (setInputs inputs l0) ls = Inr ls'"
  proof (rule forwardLayers_total, intro allI impI ballI)
    fix k n assume k: "k < length ls" and n: "n \<in> set (ls ! k)"
    then have "n \<in> set (network d ! Suc k)" "Suc k \<in> {1..<length (network d)}"
      using net by simp_all
    with assms have "length (weights n) = length (network d ! k)"
      unfolding wellFormed_def by force
    then show "length (weights n) \<le> length ((setInputs inputs l0 # ls) ! k)"
      using net by (cases k) (simp_all add: length_setInputs)
  qed
  with net show ?thesis by (auto simp: feedInputs_def Let_def)
qed

lemma wellFormed_feedInputs:
  assumes "wellFormed d" and "feedInputs d inputs = Inr d1"
  shows "wellFormed d1"
  unfolding wellFormed_def
proof (intro conjI ballI)
  note len = feedInputs_Inr(3) [OF assms(2)]
  show "2 \<le> length (network d1)" using assms(1) len by (simp add: wellFormed_def)
  fix l n assume l: "l \<in> {1..<length (network d1)}" and n: "n \<in> set (network d1 ! l)"
  then have l0: "0 < l" and l1: "l < length (network d)" and l2: "l - 1 < length (network d)"
    using len by auto
  from n obtain k where k: "k < length (network d1 ! l)" and nk: "n = network d1 ! l ! k"
    by (auto simp: in_set_conv_nth)
  then have k': "k < length (network d ! l)"
    using feedInputs_layer_length [OF assms(2) l1] by simp
  show "length (weights n) = length (network d1 ! (l - 1))"
    using feedInputs_frame(1) [OF assms(2) l1 k'] wellFormed_layer [OF assms(1) l0 l1 k']
      feedInputs_layer_length [OF assms(2) l2] nk by simp
qed

lemma proposeOutput_total:
  assumes "wellFormed d"
  shows "\<exists>d2. proposeOutput d expected = Inr d2"
proof -
  let ?net = "network d"
  from assms have big: "2 \<le> length ?net" by (simp add: wellFormed_def)
  then have ne: "?net \<noteq> []" by auto
  then have last: "last ?net = ?net ! (length ?net - 1)" by (rule last_conv_nth)
  have "\<exists>layer'. mapE (\<lambda>i. proposeOutputNode d (Some (?net ! (length ?net - 2))) expected
                              (last ?net ! i) i) [0..<length (last ?net)] = Inr layer'"
  proof (rule mapE_total)
    fix i assume "i \<in> set [0..<length (last ?net)]"
    then have "i < length (?net ! (length ?net - 1))" using last by simp
    with assms big have "length (weights (?net ! (length ?net - 1) ! i))
                      = length (?net ! (length ?net - 1 - 1))"
      by (intro wellFormed_layer) simp_all
    moreover have "length ?net - 1 - 1 = length ?net - 2" by simp
    ultimately have "length (weights (last ?net ! i)) \<le> length (?net ! (length ?net - 2))"
      using last by simp
    then show "\<exists>y. proposeOutputNode d (Some (?net ! (length ?net - 2))) expected
                      (last ?net ! i) i = Inr y"
      by (rule proposeOutputNode_total)
  qed
  with big ne show ?thesis
    by (auto simp: proposeOutput_def Let_def split: list.splits)
qed

section \<open>Total error\<close>

lemma reduceError_foldl:
  "reduceError ef expected ns i s =
     foldl (\<lambda>a k. jadd a (ef (output' (cached (ns ! k))) (idx expected (i + k)))) s [0..<length ns]"
proof (induction ns arbitrary: i s)
  case Nil
  then show ?case by simp
next
  case (Cons n ns)
  show ?case by (simp add: Cons.IH foldl_upt_shift del: upt_Suc)
qed

text \<open>
  Claim C7. For an expected vector as long as the output layer, \<open>totalError(expected)\<close>
  returns the sum, taken in the order of the output nodes and starting from 0, of
  \<open>errorFunction(node.cached.output, expected[i])\<close>. The function reads the cached
  outputs of the last layer only: it runs no forward pass and assigns to no field, which
  is why its model returns a value and no state.
\<close>

theorem totalError_sum:
  assumes "network d \<noteq> []" and "length expected = length (last (network d))"
  shows "totalError d expected =
           Inr (foldl (\<lambda>s i. jadd s (errorFunction d (output' (cached (last (network d) ! i)))
                                        (expected ! i)))
                  (Num 0) [0..<length (last (network d))])"
proof -
  have "reduceError (errorFunction d) expected (last (network d)) 0 (Num 0) =
          foldl (\<lambda>s i. jadd s (errorFunction d (output' (cached (last (network d) ! i)))
                                        (expected ! i)))
                  (Num 0) [0..<length (last (network d))]"
    unfolding reduceError_foldl using assms(2)
    by (intro foldl_cong) (simp_all add: idx_def)
  with assms(1) show ?thesis
    by (cases "network d") (simp_all add: totalError_def)
qed

theorem totalError_sum_witness:
  "network example \<noteq> [] \<and> length [Num 0.01, Num 0.99] = length (last (network example)) \<and>
   totalError example [Num 0.01, Num 0.99] = Inr (Num 0.4901)"
proof -
  have ne: "network example \<noteq> []" by (simp add: example_def)
  have len: "length [Num 0.01, Num 0.99] = length (last (network example))"
    by (simp add: example_def)
  from totalError_sum [OF ne len] ne len show ?thesis
    by (simp add: example_def node_new_def power2_eq_square)
qed

section \<open>Forward pass: what feedInputs leaves behind\<close>

lemma map_map_eqD:
  assumes "map (map f) xss = map (map f) yss"
  shows "length xss = length yss"
    and "\<And>l. l < length yss \<Longrightarrow> length (xss ! l) = length (yss ! l)"
    and "\<And>l k. l < length yss \<Longrightarrow> k < length (yss ! l) \<Longrightarrow> f (xss ! l ! k) = f (yss ! l ! k)"
proof -
  show len: "length xss = length yss" using assms by (rule map_eq_imp_length_eq)
  have row: "map f (xss ! l) = map f (yss ! l)" if "l < length yss" for l
    using that len assms by (metis nth_map)
  show "length (xss ! l) = length (yss ! l)" if "l < length yss" for l
    using row [OF that] by (rule map_eq_imp_length_eq)
  show "f (xss ! l ! k) = f (yss ! l ! k)" if "l < length yss" "k < length (yss ! l)" for l k
    using row [OF that(1)] that(2) by (metis map_eq_imp_length_eq nth_map)
qed

lemma map_map_eqI:
  assumes "length xss = length yss"
    and "\<And>l. l < length yss \<Longrightarrow> length (xss ! l) = length (yss ! l)"
    and "\<And>l k. l < length yss \<Longrightarrow> k < length (yss ! l) \<Longrightarrow> f (xss ! l ! k) = f (yss ! l ! k)"
  shows "map (map f) xss = map (map f) yss"
  using assms by (simp add: list_eq_iff_nth_eq)

lemma feedInputs_determined:
  assumes d: "feedInputs d inputs = Inr d'" and e: "feedInputs e inputs = Inr e'"
    and af: "activationFunction e = activationFunction d"
    and w: "map (map weights) (network e) = map (map weights) (network d)"
    and b: "map (map bias) (network e) = map (map bias) (network d)"
  shows "l < length (network d) \<Longrightarrow> k < length (network d ! l) \<Longrightarrow>
          output' (cached (network e' ! l ! k)) = output' (cached (network d' ! l ! k)) \<and>
          (0 < l \<longrightarrow> input (cached (network e' ! l ! k)) = input (cached (network d' ! l ! k)))"
proof (induction l arbitrary: k)
  case 0
  from map_map_eqD(1,2) [OF w] 0 have "k < length (network e ! 0)" by simp
  with 0 feedInputs_Inr(4) [OF d] feedInputs_Inr(4) [OF e] show ?case
    by (simp add: nth_setInputs)
next
  case (Suc l)
  let ?nd = "network d ! Suc l ! k" and ?ne = "network e ! Suc l ! k"
  have len: "length (network e) = length (network d)" using map_map_eqD(1) [OF w] .
  have lene: "length (network e ! Suc l) = length (network d ! Suc l)"
    using map_map_eqD(2) [OF w Suc.prems(1)] .
  have weq: "weights ?ne = weights ?nd" using map_map_eqD(3) [OF w Suc.prems] .
  have beq: "bias ?ne = bias ?nd" using map_map_eqD(3) [OF b Suc.prems] .
  have fd: "forwardNode (activationFunction d) (network d' ! l) ?nd = Inr (network d' ! Suc l ! k)"
    using feedInputs_node [OF d _ Suc.prems] by simp
  have fe: "forwardNode (activationFunction d) (network e' ! l) ?ne = Inr (network e' ! Suc l ! k)"
    using feedInputs_node [OF e, of "Suc l" k] Suc.prems len lene af by simp
  have l: "l < length (network d)" using Suc.prems(1) by simp
  have "foldl (\<lambda>a i. jadd a (jmul (output' (cached (network e' ! l ! i))) (weights ?nd ! i)))
          (Num 0) [0..<length (weights ?nd)]
      = foldl (\<lambda>a i. jadd a (jmul (output' (cached (network d' ! l ! i))) (weights ?nd ! i)))
          (Num 0) [0..<length (weights ?nd)]"
  proof (intro foldl_cong refl)
    fix a i assume "i \<in> set [0..<length (weights ?nd)]"
    then have i: "i < length (weights ?nd)" by simp
    then have "weights ?nd \<noteq> []" by auto
    with forwardNode_Inr(8) [OF fd] i have "i < length (network d' ! l)" by simp
    then have "i < length (network d ! l)" using feedInputs_layer_length [OF d l] by simp
    from Suc.IH [OF l this]
    show "jadd a (jmul (output' (cached (network e' ! l ! i))) (weights ?nd ! i))
        = jadd a (jmul (output' (cached (network d' ! l ! i))) (weights ?nd ! i))"
      by simp
  qed
  then have "input (cached (network e' ! Suc l ! k)) = input (cached (network d' ! Suc l ! k))"
    using forwardNode_Inr(3) [OF fd] forwardNode_Inr(3) [OF fe] weq beq by simp
  then show ?case
    using forwardNode_Inr(4) [OF fd] forwardNode_Inr(4) [OF fe] by simp
qed

lemma wellFormed_example: "wellFormed example"
  unfolding wellFormed_def
proof (intro conjI ballI)
  show "2 \<le> length (network example)" by (simp add: example_def)
  fix l n assume "l \<in> {1..<length (network example)}" and n: "n \<in> set (network example ! l)"
  then have "l = 1 \<or> l = 2" by (auto simp: example_def)
  with n show "length (weights n) = length (network example ! (l - 1))"
    by (auto simp: example_def node_new_def)
qed

lemma setInputs_setInputs: "setInputs inputs (setInputs inputs0 l0) = setInputs inputs l0"
  by (simp add: setInputs_def)

lemma forwardNode_overwrites:
  assumes "forwardNode af ll0 n = Inr n0"
  shows "forwardNode af ll n0 = forwardNode af ll n"
proof -
  from assms obtain s where
    n0: "n0 = n\<lparr>cached := (cached n)\<lparr>input := jadd s (bias n), output' := af (jadd s (bias n))\<rparr>\<rparr>"
    by (auto simp: forwardNode_def Let_def split: sum.splits)
  show ?thesis unfolding n0 by (simp add: forwardNode_def Let_def split: sum.splits)
qed

lemma mapE_forwardNode_overwrites:
  "mapE (forwardNode af ll0) l = Inr l0 \<Longrightarrow>
   mapE (forwardNode af ll) l0 = mapE (forwardNode af ll) l"
proof (induction l arbitrary: l0)
  case Nil
  then show ?case by simp
next
  case (Cons n l)
  from Cons.prems obtain n0 r0 where n0: "forwardNode af ll0 n = Inr n0"
    and r0: "mapE (forwardNode af ll0) l = Inr r0" and l0: "l0 = n0 # r0"
    by (auto split: sum.splits)
  from forwardNode_overwrites [OF n0] Cons.IH [OF r0] l0 show ?case
    by (simp cong: sum.case_cong)
qed

lemma forwardLayers_overwrites:
  "forwardLayers af ll0 ls = Inr ls0 \<Longrightarrow> forwardLayers af ll ls0 = forwardLayers af ll ls"
proof (induction ls arbitrary: ll0 ll ls0)
  case Nil
  then show ?case by simp
next
  case (Cons l ls)
  from Cons.prems obtain l' rest where l': "mapE (forwardNode af ll0) l = Inr l'"
    and rest: "forwardLayers af l' ls = Inr rest" and ls0: "ls0 = l' # rest"
    by (auto split: sum.splits)
  have m: "mapE (forwardNode af ll) l' = mapE (forwardNode af ll) l"
    using l' by (rule mapE_forwardNode_overwrites)
  have r: "forwardLayers af x rest = forwardLayers af x ls" for x
    using rest by (rule Cons.IH)
  show ?case unfolding ls0 by (simp add: m r cong: sum.case_cong)
qed

lemma feedInputs_overwrites:
  assumes "feedInputs d inputs0 = Inr d0"
  shows "feedInputs d0 inputs = feedInputs d inputs"
proof -
  from assms obtain l0 ls ls0 where net: "network d = l0 # ls"
    and fl: "forwardLayers (activationFunction d) (setInputs inputs0 l0) ls = Inr ls0"
    and d0: "d0 = d\<lparr>network := setInputs inputs0 l0 # ls0\<rparr>"
    by (auto simp: feedInputs_def Let_def split: list.splits sum.splits)
  have "forwardLayers (activationFunction d) (setInputs inputs l0) ls0
      = forwardLayers (activationFunction d) (setInputs inputs l0) ls"
    using fl by (rule forwardLayers_overwrites)
  then show ?thesis
    unfolding d0 by (simp add: feedInputs_def net setInputs_setInputs Let_def split: sum.splits)
qed

text \<open>
  Claim C4. When \<open>feedInputs(inputs)\<close> returns, weights and biases are as before, and
  in the new state: every input-layer node has \<open>cached.output = inputs[i]\<close>, with no
  activation applied; every node of a later layer has \<open>cached.input\<close> equal to the sum
  over \<open>i\<close>, from 0 and in order, of \<open>weights[i]\<close> times the new \<open>cached.output\<close> of
  node \<open>i\<close> of the layer before, plus \<open>bias\<close>, and \<open>cached.output\<close> equal to the
  activation function of that \<open>cached.input\<close>. Nothing of an earlier call survives in
  these values: started from any other state \<open>e\<close> with the same weights, biases and
  activation function, the call leaves the same outputs in every layer and the same
  inputs in every layer after the first. And when the state before the call was itself
  left by a call \<open>feedInputs(inputs0)\<close> on a state \<open>c\<close>, the new state is the one
  \<open>feedInputs(inputs)\<close> gives on \<open>c\<close> directly: every value the earlier call wrote
  is overwritten.
\<close>

theorem feedInputs_forward:
  assumes "feedInputs d inputs = Inr d'"
  shows "map (map weights) (network d') = map (map weights) (network d) \<and>
    map (map bias) (network d') = map (map bias) (network d) \<and>
    (\<forall>i<length (network d ! 0). output' (cached (network d' ! 0 ! i)) = idx inputs i) \<and>
    (\<forall>l k. 0 < l \<and> l < length (network d) \<and> k < length (network d ! l) \<longrightarrow>
       input (cached (network d' ! l ! k)) =
         jadd (foldl (\<lambda>v i. jadd v (jmul (weights (network d ! l ! k) ! i)
                                         (output' (cached (network d' ! (l - 1) ! i)))))
                 (Num 0) [0..<length (weights (network d ! l ! k))])
              (bias (network d ! l ! k)) \<and>
       output' (cached (network d' ! l ! k)) =
         activationFunction d (input (cached (network d' ! l ! k)))) \<and>
    (\<forall>e e'. activationFunction e = activationFunction d \<and>
        map (map weights) (network e) = map (map weights) (network d) \<and>
        map (map bias) (network e) = map (map bias) (network d) \<and>
        feedInputs e inputs = Inr e' \<longrightarrow>
        map (map (\<lambda>n. output' (cached n))) (network e')
          = map (map (\<lambda>n. output' (cached n))) (network d') \<and>
        map (map (\<lambda>n. input (cached n))) (tl (network e'))
          = map (map (\<lambda>n. input (cached n))) (tl (network d'))) \<and>
    (\<forall>c inputs0. feedInputs c inputs0 = Inr d \<longrightarrow> feedInputs c inputs = Inr d')"
proof (intro conjI allI impI)
  note len = feedInputs_Inr(3) [OF assms]
  note llen = feedInputs_layer_length [OF assms]
  show "map (map weights) (network d') = map (map weights) (network d)"
    using len llen feedInputs_frame(1) [OF assms] by (intro map_map_eqI) simp_all
  show "map (map bias) (network d') = map (map bias) (network d)"
    using len llen feedInputs_frame(2) [OF assms] by (intro map_map_eqI) simp_all
  show "output' (cached (network d' ! 0 ! i)) = idx inputs i" if "i < length (network d ! 0)" for i
    using that feedInputs_Inr(4) [OF assms] by (simp add: nth_setInputs)
next
  fix l k assume lk: "0 < l \<and> l < length (network d) \<and> k < length (network d ! l)"
  then have fn: "forwardNode (activationFunction d) (network d' ! (l - 1)) (network d ! l ! k)
                   = Inr (network d' ! l ! k)"
    using feedInputs_node [OF assms] by simp
  show "input (cached (network d' ! l ! k)) =
         jadd (foldl (\<lambda>v i. jadd v (jmul (weights (network d ! l ! k) ! i)
                                         (output' (cached (network d' ! (l - 1) ! i)))))
                 (Num 0) [0..<length (weights (network d ! l ! k))])
              (bias (network d ! l ! k))"
    using forwardNode_Inr(3) [OF fn]
    by (simp add: jmul_commute [of "weights (network d ! l ! k) ! i" for i])
  show "output' (cached (network d' ! l ! k)) =
         activationFunction d (input (cached (network d' ! l ! k)))"
    using forwardNode_Inr(4) [OF fn] .
next
  fix e e'
  assume h: "activationFunction e = activationFunction d \<and>
        map (map weights) (network e) = map (map weights) (network d) \<and>
        map (map bias) (network e) = map (map bias) (network d) \<and>
        feedInputs e inputs = Inr e'"
  then have e: "feedInputs e inputs = Inr e'"
    and w: "map (map weights) (network e) = map (map weights) (network d)" by simp_all
  note det = feedInputs_determined [OF assms e]
  have len: "length (network e') = length (network d')"
    using feedInputs_Inr(3) [OF assms] feedInputs_Inr(3) [OF e] map_map_eqD(1) [OF w] by simp
  have llen: "length (network e' ! l) = length (network d' ! l)" if "l < length (network d')" for l
    using that feedInputs_layer_length [OF assms, of l] feedInputs_layer_length [OF e, of l]
      map_map_eqD(1,2) [OF w] feedInputs_Inr(3) [OF assms] by simp
  show "map (map (\<lambda>n. output' (cached n))) (network e')
          = map (map (\<lambda>n. output' (cached n))) (network d')"
  proof (rule map_map_eqI [OF len llen])
    fix l k assume "l < length (network d')" "k < length (network d' ! l)"
    then have "l < length (network d)" "k < length (network d ! l)"
      using feedInputs_Inr(3) [OF assms] feedInputs_layer_length [OF assms, of l] by simp_all
    from det [OF _ _ _ this] h
    show "output' (cached (network e' ! l ! k)) = output' (cached (network d' ! l ! k))" by simp
  qed
  show "map (map (\<lambda>n. input (cached n))) (tl (network e'))
          = map (map (\<lambda>n. input (cached n))) (tl (network d'))"
  proof (rule map_map_eqI)
    show "length (tl (network e')) = length (tl (network d'))" using len by simp
    fix l assume l: "l < length (tl (network d'))"
    then have sl: "Suc l < length (network d')" by simp
    have tl: "tl (network e') ! l = network e' ! Suc l" "tl (network d') ! l = network d' ! Suc l"
      using l len by (simp_all add: nth_tl)
    show "length (tl (network e') ! l) = length (tl (network d') ! l)"
      using tl llen [OF sl] by simp
    fix k assume "k < length (tl (network d') ! l)"
    then have "Suc l < length (network d)" "k < length (network d ! Suc l)"
      using sl tl feedInputs_Inr(3) [OF assms] feedInputs_layer_length [OF assms, of "Suc l"]
      by simp_all
    from det [OF _ _ _ this] h tl
    show "input (cached (tl (network e') ! l ! k)) = input (cached (tl (network d') ! l ! k))"
      by simp
  qed
next
  fix c inputs0 assume "feedInputs c inputs0 = Inr d"
  from feedInputs_overwrites [OF this, of inputs] assms
  show "feedInputs c inputs = Inr d'" by simp
qed

theorem feedInputs_forward_witness:
  "\<exists>d'. feedInputs example [Num 0.05, Num 0.1] = Inr d' \<and>
        output' (cached (network d' ! 0 ! 0)) = Num 0.05 \<and>
        output' (cached (network d' ! 0 ! 1)) = Num 0.1 \<and>
        input (cached (network d' ! 1 ! 0)) = Num 0.3775 \<and>
        output' (cached (network d' ! 1 ! 0)) = Num (1 / (1 + exp (- 0.3775)))"
proof -
  from feedInputs_total [OF wellFormed_example]
  obtain d' where d': "feedInputs example [Num 0.05, Num 0.1] = Inr d'" by blast
  note f = feedInputs_forward [OF d']
  from f have o: "\<forall>i<length (network example ! 0).
           output' (cached (network d' ! 0 ! i)) = idx [Num 0.05, Num 0.1] i" by blast
  have o0: "output' (cached (network d' ! 0 ! 0)) = Num 0.05" 
    and o1: "output' (cached (network d' ! 0 ! 1)) = Num 0.1"
    using o by (simp_all add: example_def idx_def)
  from f have "0 < (1::nat) \<and> 1 < length (network example) \<and> 0 < length (network example ! 1) \<longrightarrow>
       input (cached (network d' ! 1 ! 0)) =
         jadd (foldl (\<lambda>v i. jadd v (jmul (weights (network example ! 1 ! 0) ! i)
                                         (output' (cached (network d' ! (1 - 1) ! i)))))
                 (Num 0) [0..<length (weights (network example ! 1 ! 0))])
              (bias (network example ! 1 ! 0)) \<and>
       output' (cached (network d' ! 1 ! 0)) =
         activationFunction example (input (cached (network d' ! 1 ! 0)))" by blast
  then have "input (cached (network d' ! 1 ! 0)) = Num 0.3775 \<and>
        output' (cached (network d' ! 1 ! 0)) = Num (1 / (1 + exp (- 0.3775)))"
    using o0 o1 by (simp add: example_def node_new_def)
  with d' o0 o1 show ?thesis by blast
qed

section \<open>The states of one training step\<close>

lemma netdef_params:
  assumes "d' = d\<lparr>network := net\<rparr>"
  shows "updateMultiplier d' = updateMultiplier d"
    and "activationFunction d' = activationFunction d"
    and "activationFunctionDerivative d' = activationFunctionDerivative d"
    and "errorFunction d' = errorFunction d"
    and "errorFunctionDerivative d' = errorFunctionDerivative d"
  by (simp_all add: assms)

lemma foldl_conv_nth: "foldl f a xs = foldl (\<lambda>s k. f s (xs ! k)) a [0..<length xs]"
proof -
  have "foldl f a (map (\<lambda>k. xs ! k) [0..<length xs]) = foldl (\<lambda>s k. f s (xs ! k)) a [0..<length xs]"
    by (simp add: foldl_map)
  then show ?thesis by (simp add: map_nth)
qed

lemma proposeOutput_layer_length:
  assumes "proposeOutput d expected = Inr d2"
  shows "length (network d2 ! l) = length (network d ! l)"
  using proposeOutput_Inr(4,5) [OF assms] by (cases "l = length (network d) - 1") simp_all

lemma proposeOutput_frame:
  assumes "proposeOutput d expected = Inr d2" and "k < length (network d ! l)"
  shows "weights (network d2 ! l ! k) = weights (network d ! l ! k)"
    and "bias (network d2 ! l ! k) = bias (network d ! l ! k)"
    and "input (cached (network d2 ! l ! k)) = input (cached (network d ! l ! k))"
    and "output' (cached (network d2 ! l ! k)) = output' (cached (network d ! l ! k))"
proof -
  have "weights (network d2 ! l ! k) = weights (network d ! l ! k) \<and>
     bias (network d2 ! l ! k) = bias (network d ! l ! k) \<and>
     input (cached (network d2 ! l ! k)) = input (cached (network d ! l ! k)) \<and>
     output' (cached (network d2 ! l ! k)) = output' (cached (network d ! l ! k))"
  proof (cases "l = length (network d) - 1")
    case True
    with proposeOutput_Inr(6) [OF assms(1), of k] assms(2)
    have pn: "proposeOutputNode d
             (if 2 \<le> length (network d) then Some (network d ! (length (network d) - 2)) else None)
             expected (network d ! l ! k) k = Inr (network d2 ! l ! k)" by simp
    from proposeOutputNode_Inr(1-4) [OF pn] show ?thesis by simp
  next
    case False
    with proposeOutput_Inr(4) [OF assms(1)] show ?thesis by simp
  qed
  then show "weights (network d2 ! l ! k) = weights (network d ! l ! k)"
    and "bias (network d2 ! l ! k) = bias (network d ! l ! k)"
    and "input (cached (network d2 ! l ! k)) = input (cached (network d ! l ! k))"
    and "output' (cached (network d2 ! l ! k)) = output' (cached (network d ! l ! k))"
    by simp_all
qed

lemma proposeHidden_layer_length:
  assumes "proposeHidden d = Inr d3"
  shows "length (network d3 ! l) = length (network d ! l)"
proof (cases "0 < l \<and> l < length (network d) - 1")
  case True
  then show ?thesis using proposeHidden_Inr(4) [OF assms] by simp
next
  case False
  then have "l = 0 \<or> length (network d) - 1 \<le> l" by auto
  then show ?thesis using proposeHidden_Inr(3) [OF assms] by simp
qed

lemma proposeHidden_frame:
  assumes "proposeHidden d = Inr d3" and "k < length (network d ! l)"
  shows "weights (network d3 ! l ! k) = weights (network d ! l ! k)"
    and "bias (network d3 ! l ! k) = bias (network d ! l ! k)"
    and "input (cached (network d3 ! l ! k)) = input (cached (network d ! l ! k))"
    and "output' (cached (network d3 ! l ! k)) = output' (cached (network d ! l ! k))"
proof -
  have "weights (network d3 ! l ! k) = weights (network d ! l ! k) \<and>
     bias (network d3 ! l ! k) = bias (network d ! l ! k) \<and>
     input (cached (network d3 ! l ! k)) = input (cached (network d ! l ! k)) \<and>
     output' (cached (network d3 ! l ! k)) = output' (cached (network d ! l ! k))"
  proof (cases "0 < l \<and> l < length (network d) - 1")
    case True
    with proposeHidden_Inr(5) [OF assms(1), of l k] assms(2)
    have pn: "proposeHiddenNode d (network d ! (l - 1)) (network d3 ! Suc l) (network d ! l ! k) k
             = Inr (network d3 ! l ! k)" by simp
    from proposeHiddenNode_Inr(1-4) [OF pn] show ?thesis by simp
  next
    case False
    then have "l = 0 \<or> length (network d) - 1 \<le> l" by auto
    with proposeHidden_Inr(3) [OF assms(1)] show ?thesis by simp
  qed
  then show "weights (network d3 ! l ! k) = weights (network d ! l ! k)"
    and "bias (network d3 ! l ! k) = bias (network d ! l ! k)"
    and "input (cached (network d3 ! l ! k)) = input (cached (network d ! l ! k))"
    and "output' (cached (network d3 ! l ! k)) = output' (cached (network d ! l ! k))"
    by simp_all
qed

lemma applyNode_simps:
  "bias (applyNode n) = bias n"
  "cached (applyNode n) = cached n"
  "length (weights (applyNode n)) = length (weights n)"
  "i < length (weights n) \<Longrightarrow>
     weights (applyNode n) ! i = jadd (weights n ! i) (idx (weightUpdates (cached n)) i)"
  by (simp_all add: applyNode_def)

lemma applyUpdates_nth:
  "length (network (applyUpdates d)) = length (network d)"
  "l < length (network d) \<Longrightarrow> length (network (applyUpdates d) ! l) = length (network d ! l)"
  "l < length (network d) \<Longrightarrow> k < length (network d ! l) \<Longrightarrow>
     network (applyUpdates d) ! l ! k = applyNode (network d ! l ! k)"
  by (simp_all add: applyUpdates_def)

lemma applyUpdates_params:
  "updateMultiplier (applyUpdates d) = updateMultiplier d"
  "activationFunction (applyUpdates d) = activationFunction d"
  "activationFunctionDerivative (applyUpdates d) = activationFunctionDerivative d"
  "errorFunction (applyUpdates d) = errorFunction d"
  "errorFunctionDerivative (applyUpdates d) = errorFunctionDerivative d"
  by (simp_all add: applyUpdates_def)

text \<open>The states of one training step, node by node.\<close>

lemma trainingStep_states:
  assumes f: "feedInputs d inputs = Inr d1" and o: "proposeOutput d1 expected = Inr d2"
    and h: "proposeHidden d2 = Inr d3"
  shows "length (network d1) = length (network d)"
    and "length (network d2) = length (network d)"
    and "length (network d3) = length (network d)"
    and "\<And>l. l < length (network d) \<Longrightarrow> length (network d1 ! l) = length (network d ! l)"
    and "\<And>l. l < length (network d) \<Longrightarrow> length (network d2 ! l) = length (network d ! l)"
    and "\<And>l. l < length (network d) \<Longrightarrow> length (network d3 ! l) = length (network d ! l)"
proof -
  show 1: "length (network d1) = length (network d)" using feedInputs_Inr(3) [OF f] .
  show 2: "length (network d2) = length (network d)" using proposeOutput_Inr(3) [OF o] 1 by simp
  show 3: "length (network d3) = length (network d)" using proposeHidden_Inr(2) [OF h] 2 by simp
  show 4: "\<And>l. l < length (network d) \<Longrightarrow> length (network d1 ! l) = length (network d ! l)"
    using feedInputs_layer_length [OF f] .
  show 5: "\<And>l. l < length (network d) \<Longrightarrow> length (network d2 ! l) = length (network d ! l)"
    using proposeOutput_layer_length [OF o] 4 by simp
  show "\<And>l. l < length (network d) \<Longrightarrow> length (network d3 ! l) = length (network d ! l)"
    using proposeHidden_layer_length [OF h] 5 by simp
qed

lemma trainingStep_frame:
  assumes f: "feedInputs d inputs = Inr d1" and o: "proposeOutput d1 expected = Inr d2"
    and h: "proposeHidden d2 = Inr d3"
    and l: "l < length (network d)" and k: "k < length (network d ! l)"
  shows "weights (network d1 ! l ! k) = weights (network d ! l ! k)"
    and "weights (network d2 ! l ! k) = weights (network d ! l ! k)"
    and "weights (network d3 ! l ! k) = weights (network d ! l ! k)"
    and "bias (network d3 ! l ! k) = bias (network d ! l ! k)"
    and "input (cached (network d3 ! l ! k)) = input (cached (network d1 ! l ! k))"
    and "output' (cached (network d3 ! l ! k)) = output' (cached (network d1 ! l ! k))"
    and "input (cached (network d2 ! l ! k)) = input (cached (network d1 ! l ! k))"
    and "output' (cached (network d2 ! l ! k)) = output' (cached (network d1 ! l ! k))"
proof -
  note s = trainingStep_states [OF f o h]
  have k1: "k < length (network d1 ! l)" using s(4) [OF l] k by simp
  have k2: "k < length (network d2 ! l)" using s(5) [OF l] k by simp
  note a = feedInputs_frame [OF f l k]
  note b = proposeOutput_frame [OF o k1]
  note c = proposeHidden_frame [OF h k2]
  show "weights (network d1 ! l ! k) = weights (network d ! l ! k)" using a by simp
  show "weights (network d2 ! l ! k) = weights (network d ! l ! k)" using a b by simp
  show "weights (network d3 ! l ! k) = weights (network d ! l ! k)" using a b c by simp
  show "bias (network d3 ! l ! k) = bias (network d ! l ! k)" using a b c by simp
  show "input (cached (network d3 ! l ! k)) = input (cached (network d1 ! l ! k))"
    using b c by simp
  show "output' (cached (network d3 ! l ! k)) = output' (cached (network d1 ! l ! k))"
    using b c by simp
  show "input (cached (network d2 ! l ! k)) = input (cached (network d1 ! l ! k))"
    using b by simp
  show "output' (cached (network d2 ! l ! k)) = output' (cached (network d1 ! l ! k))"
    using b by simp
qed

lemma trainingStep_params:
  assumes f: "feedInputs d inputs = Inr d1" and o: "proposeOutput d1 expected = Inr d2"
    and h: "proposeHidden d2 = Inr d3"
  shows "updateMultiplier d1 = updateMultiplier d"
    and "errorFunctionDerivative d1 = errorFunctionDerivative d"
    and "activationFunctionDerivative d1 = activationFunctionDerivative d"
    and "errorFunction d1 = errorFunction d"
    and "updateMultiplier d2 = updateMultiplier d"
    and "activationFunctionDerivative d2 = activationFunctionDerivative d"
    and "errorFunction d3 = errorFunction d"
  using netdef_params [OF feedInputs_Inr(2) [OF f]] netdef_params [OF proposeOutput_Inr(2) [OF o]]
    netdef_params [OF proposeHidden_Inr(1) [OF h]]
  by simp_all

lemma proposeHidden_total:
  assumes "2 \<le> length (network d)"
    and "\<And>l k. 0 < l \<Longrightarrow> l < length (network d) - 1 \<Longrightarrow> k < length (network d ! l) \<Longrightarrow>
           length (weights (network d ! l ! k)) \<le> length (network d ! (l - 1))"
  shows "\<exists>d3. proposeHidden d = Inr d3"
proof -
  have "\<exists>net'. hiddenLoop d (length (network d) - 2) (network d) = Inr net'"
  proof (rule hiddenLoop_total, goal_cases)
    case 1
    show ?case using assms(1) by simp
  next
    case 2
    show ?case
    proof (intro allI impI ballI)
      fix l n assume l: "0 < l \<and> l \<le> length (network d) - 2" and "n \<in> set (network d ! l)"
      then obtain k where "k < length (network d ! l)" "n = network d ! l ! k"
        by (auto simp: in_set_conv_nth)
      moreover from l assms(1) have "l < length (network d) - 1" by arith
      ultimately show "length (weights n) \<le> length (network d ! (l - 1))"
        using assms(2) [of l k] l by simp
    qed
  qed
  then show ?thesis by (auto simp: proposeHidden_def)
qed

lemma applyUpdates_node:
  assumes "l < length (network d)" and "k < length (network d ! l)"
  shows "cached (network (applyUpdates d) ! l ! k) = cached (network d ! l ! k)"
    and "bias (network (applyUpdates d) ! l ! k) = bias (network d ! l ! k)"
    and "length (weights (network (applyUpdates d) ! l ! k)) = length (weights (network d ! l ! k))"
    and "\<And>i. i < length (weights (network d ! l ! k)) \<Longrightarrow>
          weights (network (applyUpdates d) ! l ! k) ! i =
            jadd (weights (network d ! l ! k) ! i) (idx (weightUpdates (cached (network d ! l ! k))) i)"
  using assms by (simp_all add: applyUpdates_nth(3) applyNode_simps)

lemma trainingStep_total:
  assumes "wellFormed d"
  shows "\<exists>d'. trainingStep d inputs expected = Inr d'"
proof -
  from feedInputs_total [OF assms] obtain d1 where f: "feedInputs d inputs = Inr d1" by blast
  have wf1: "wellFormed d1" using assms f by (rule wellFormed_feedInputs)
  from proposeOutput_total [OF wf1] obtain d2 where o: "proposeOutput d1 expected = Inr d2"
    by blast
  have big: "2 \<le> length (network d1)" using wf1 by (simp add: wellFormed_def)
  have ne1: "network d1 \<noteq> []" using big by auto
  have "\<exists>d3. proposeHidden d2 = Inr d3"
  proof (rule proposeHidden_total)
    show "2 \<le> length (network d2)" using proposeOutput_Inr(3) [OF o] big by simp
    fix l k assume l: "0 < l" "l < length (network d2) - 1" and k: "k < length (network d2 ! l)"
    have len: "length (network d2) = length (network d1)" using proposeOutput_Inr(3) [OF o] .
    have a: "network d2 ! l = network d1 ! l" "network d2 ! (l - 1) = network d1 ! (l - 1)"
      using proposeOutput_Inr(4) [OF o] l len by simp_all
    from l len have "l < length (network d1)" by simp
    from wellFormed_layer [OF wf1 l(1) this] k a
    show "length (weights (network d2 ! l ! k)) \<le> length (network d2 ! (l - 1))" by simp
  qed
  then obtain d3 where h: "proposeHidden d2 = Inr d3" by blast
  from f o h ne1 show ?thesis
    by (cases "network d1")
       (simp_all add: trainingStep_def totalError_def outputs_def proposeUpdates_def)
qed

section \<open>Training step: the output layer\<close>

text \<open>
  Claim C1. Let \<open>d1\<close> be the state the forward pass of \<open>trainingStep(inputs, expected)\<close>
  leaves. When the step returns, every node \<open>i\<close> of the output layer has
  \<open>cached.errorWrtIn\<close> equal to
  \<open>errorFunctionDerivative(output, expected[i]) * activationFunctionDerivative(input)\<close>
  on its forward-pass values; one proposed update per weight, update \<open>j\<close> being
  \<open>-(errorWrtIn * previousLayer[j].cached.output * updateMultiplier)\<close>; and
  \<open>cached.biasUpdate\<close> equal to \<open>errorWrtIn * updateMultiplier\<close>, without the minus
  sign of the weight updates.
\<close>

theorem trainingStep_output_layer:
  assumes "trainingStep d inputs expected = Inr d'" and "feedInputs d inputs = Inr d1"
  shows "\<forall>i<length (last (network d)).
     errorWrtIn (cached (last (network d') ! i)) =
       jmul (errorFunctionDerivative d (output' (cached (last (network d1) ! i))) (idx expected i))
            (activationFunctionDerivative d (input (cached (last (network d1) ! i)))) \<and>
     length (weightUpdates (cached (last (network d') ! i))) = length (weights (last (network d) ! i)) \<and>
     (\<forall>j<length (weights (last (network d) ! i)).
        weightUpdates (cached (last (network d') ! i)) ! j =
          jneg (jmul (jmul (errorWrtIn (cached (last (network d') ! i)))
                           (output' (cached (network d1 ! (length (network d) - 2) ! j))))
                     (updateMultiplier d))) \<and>
     biasUpdate (cached (last (network d') ! i)) =
       jmul (errorWrtIn (cached (last (network d') ! i))) (updateMultiplier d)"
proof (intro allI impI)
  fix i assume i: "i < length (last (network d))"
  from assms obtain d2 d3 where o: "proposeOutput d1 expected = Inr d2"
    and h: "proposeHidden d2 = Inr d3" and d': "d' = applyUpdates d3"
    by (auto elim!: trainingStep_phases)
  note f = assms(2)
  note s = trainingStep_states [OF f o h]
  note p = trainingStep_params [OF f o h]
  let ?N = "length (network d)"
  let ?L = "?N - 1"
  have ne: "network d \<noteq> []" using feedInputs_Inr(1) [OF f] .
  then have L: "?L < ?N" by (cases "network d") simp_all
  have len': "length (network d') = ?N" using d' s(3) by (simp add: applyUpdates_nth(1))
  have ne1: "network d1 \<noteq> []" and ne': "network d' \<noteq> []" using ne s(1) len' by auto
  have last: "last (network d) = network d ! ?L" "last (network d1) = network d1 ! ?L"
    "last (network d') = network d' ! ?L"
    using last_conv_nth [OF ne] last_conv_nth [OF ne1] last_conv_nth [OF ne'] s(1) len'
    by simp_all
  have i0: "i < length (network d ! ?L)" using i last by simp
  have i1: "i < length (network d1 ! ?L)" using i0 s(4) [OF L] by simp
  have pn: "proposeOutputNode d1
             (if 2 \<le> length (network d1) then Some (network d1 ! (length (network d1) - 2)) else None)
             expected (network d1 ! ?L ! i) i = Inr (network d2 ! ?L ! i)"
    using proposeOutput_Inr(6) [OF o, of i] i1 s(1) by simp
  note n = proposeOutputNode_Inr [OF pn]
  have d32: "network d3 ! ?L = network d2 ! ?L"
    using proposeHidden_Inr(3) [OF h, of ?L] s(2) by simp
  have "i < length (network d3 ! ?L)" using s(6) [OF L] i0 by simp
  moreover have "?L < length (network d3)" using s(3) L by simp
  ultimately have "cached (network d' ! ?L ! i) = cached (network d3 ! ?L ! i)"
    unfolding d' by (intro applyUpdates_node(1))
  then have c: "cached (network d' ! ?L ! i) = cached (network d2 ! ?L ! i)"
    using d32 by simp
  have w: "weights (network d1 ! ?L ! i) = weights (network d ! ?L ! i)"
    using trainingStep_frame(1) [OF f o h L i0] .
  show "errorWrtIn (cached (last (network d') ! i)) =
       jmul (errorFunctionDerivative d (output' (cached (last (network d1) ! i))) (idx expected i))
            (activationFunctionDerivative d (input (cached (last (network d1) ! i)))) \<and>
     length (weightUpdates (cached (last (network d') ! i))) = length (weights (last (network d) ! i)) \<and>
     (\<forall>j<length (weights (last (network d) ! i)).
        weightUpdates (cached (last (network d') ! i)) ! j =
          jneg (jmul (jmul (errorWrtIn (cached (last (network d') ! i)))
                           (output' (cached (network d1 ! (length (network d) - 2) ! j))))
                     (updateMultiplier d))) \<and>
     biasUpdate (cached (last (network d') ! i)) =
       jmul (errorWrtIn (cached (last (network d') ! i))) (updateMultiplier d)"
  proof (intro conjI allI impI)
    show "errorWrtIn (cached (last (network d') ! i)) =
       jmul (errorFunctionDerivative d (output' (cached (last (network d1) ! i))) (idx expected i))
            (activationFunctionDerivative d (input (cached (last (network d1) ! i))))"
      using n(5) c last p by simp
    show "length (weightUpdates (cached (last (network d') ! i))) = length (weights (last (network d) ! i))"
      using n(7) c last w by simp
    show "biasUpdate (cached (last (network d') ! i)) =
       jmul (errorWrtIn (cached (last (network d') ! i))) (updateMultiplier d)"
      using n(6) c last p by simp
  next
    fix j assume "j < length (weights (last (network d) ! i))"
    then have j: "j < length (weights (network d1 ! ?L ! i))" using last w by simp
    from n(8) [OF j] obtain pl where
      pl: "(if 2 \<le> length (network d1) then Some (network d1 ! (length (network d1) - 2)) else None)
             = Some pl"
      and wu: "weightUpdates (cached (network d2 ! ?L ! i)) ! j =
               jneg (jmul (jmul (errorWrtIn (cached (network d2 ! ?L ! i))) (output' (cached (pl ! j))))
                          (updateMultiplier d1))"
      by blast
    from pl have "pl = network d1 ! (?N - 2)" using s(1) by (simp split: if_splits)
    with wu show "weightUpdates (cached (last (network d') ! i)) ! j =
          jneg (jmul (jmul (errorWrtIn (cached (last (network d') ! i)))
                           (output' (cached (network d1 ! (length (network d) - 2) ! j))))
                     (updateMultiplier d))"
      using c last p by simp
  qed
qed

theorem trainingStep_output_layer_witness:
  "\<exists>d1 d'. feedInputs example [Num 0.05, Num 0.1] = Inr d1 \<and>
     trainingStep example [Num 0.05, Num 0.1] [Num 0.01, Num 0.99] = Inr d' \<and>
     errorWrtIn (cached (last (network d') ! 0)) =
       jmul (example_errorFunctionDerivative (output' (cached (last (network d1) ! 0))) (Num 0.01))
            (example_activationFunctionDerivative (input (cached (last (network d1) ! 0)))) \<and>
     weightUpdates (cached (last (network d') ! 0)) ! 0 =
       jneg (jmul (jmul (errorWrtIn (cached (last (network d') ! 0)))
                        (output' (cached (network d1 ! 1 ! 0)))) (Num 0.5)) \<and>
     biasUpdate (cached (last (network d') ! 0)) =
       jmul (errorWrtIn (cached (last (network d') ! 0))) (Num 0.5)"
proof -
  from feedInputs_total [OF wellFormed_example]
  obtain d1 where f: "feedInputs example [Num 0.05, Num 0.1] = Inr d1" by blast
  from trainingStep_total [OF wellFormed_example]
  obtain d' where t: "trainingStep example [Num 0.05, Num 0.1] [Num 0.01, Num 0.99] = Inr d'"
    by blast
  have i: "0 < length (last (network example))"
    and j: "0 < length (weights (last (network example) ! 0))"
    and n: "length (network example) - 2 = 1"
    by (simp_all add: example_def node_new_def)
  from trainingStep_output_layer [OF t f] i j n
  have "errorWrtIn (cached (last (network d') ! 0)) =
       jmul (example_errorFunctionDerivative (output' (cached (last (network d1) ! 0))) (Num 0.01))
            (example_activationFunctionDerivative (input (cached (last (network d1) ! 0)))) \<and>
     weightUpdates (cached (last (network d') ! 0)) ! 0 =
       jneg (jmul (jmul (errorWrtIn (cached (last (network d') ! 0)))
                        (output' (cached (network d1 ! 1 ! 0)))) (Num 0.5)) \<and>
     biasUpdate (cached (last (network d') ! 0)) =
       jmul (errorWrtIn (cached (last (network d') ! 0))) (Num 0.5)"
    by (simp add: example_def idx_def)
  with f t show ?thesis by blast
qed

section \<open>Training step: auxiliary facts\<close>

lemma hidden_fanin:
  assumes f: "feedInputs d inputs = Inr d1" and o: "proposeOutput d1 expected = Inr d2"
    and h: "proposeHidden d2 = Inr d3"
    and l: "0 < l" "l < length (network d) - 1" and i: "i < length (network d ! l)"
  shows "errorWrtIn (cached (network d3 ! l ! i)) =
           jmul (foldl (\<lambda>s k. jadd s (jmul (errorWrtIn (cached (network d3 ! Suc l ! k)))
                                         (idx (weights (network d ! Suc l ! k)) i)))
                   (Num 0) [0..<length (network d ! Suc l)])
                (activationFunctionDerivative d (input (cached (network d1 ! l ! i))))"
    and "biasUpdate (cached (network d3 ! l ! i)) =
           jmul (errorWrtIn (cached (network d3 ! l ! i))) (updateMultiplier d)"
proof -
  note s = trainingStep_states [OF f o h]
  note p = trainingStep_params [OF f o h]
  have lN: "l < length (network d)" and slN: "Suc l < length (network d)" using l by linarith+
  have l2: "l < length (network d2) - 1" using l s(2) by simp
  have i2: "i < length (network d2 ! l)" using i s(5) [OF lN] by simp
  have pn: "proposeHiddenNode d2 (network d2 ! (l - 1)) (network d3 ! Suc l) (network d2 ! l ! i) i
             = Inr (network d3 ! l ! i)"
    using proposeHidden_Inr(5) [OF h l(1) l2 i2] .
  note n = proposeHiddenNode_Inr [OF pn]
  have "foldl (\<lambda>s nextNode. jadd s (jmul (errorWrtIn (cached nextNode)) (idx (weights nextNode) i)))
          (Num 0) (network d3 ! Suc l)
      = foldl (\<lambda>s k. jadd s (jmul (errorWrtIn (cached (network d3 ! Suc l ! k)))
                                    (idx (weights (network d3 ! Suc l ! k)) i)))
          (Num 0) [0..<length (network d3 ! Suc l)]"
    using foldl_conv_nth [of "\<lambda>s nextNode. jadd s (jmul (errorWrtIn (cached nextNode))
                                                  (idx (weights nextNode) i))"
                             "Num 0" "network d3 ! Suc l"]
    by simp
  also have "\<dots> = foldl (\<lambda>s k. jadd s (jmul (errorWrtIn (cached (network d3 ! Suc l ! k)))
                                         (idx (weights (network d ! Suc l ! k)) i)))
                   (Num 0) [0..<length (network d ! Suc l)]"
  proof (intro foldl_cong refl)
    show "[0..<length (network d3 ! Suc l)] = [0..<length (network d ! Suc l)]"
      using s(6) [OF slN] by simp
    fix a k assume "k \<in> set [0..<length (network d3 ! Suc l)]"
    then have "k < length (network d ! Suc l)" using s(6) [OF slN] by simp
    from trainingStep_frame(3) [OF f o h slN this]
    show "jadd a (jmul (errorWrtIn (cached (network d3 ! Suc l ! k)))
                       (idx (weights (network d3 ! Suc l ! k)) i))
        = jadd a (jmul (errorWrtIn (cached (network d3 ! Suc l ! k)))
                       (idx (weights (network d ! Suc l ! k)) i))"
      by simp
  qed
  finally show "errorWrtIn (cached (network d3 ! l ! i)) =
           jmul (foldl (\<lambda>s k. jadd s (jmul (errorWrtIn (cached (network d3 ! Suc l ! k)))
                                         (idx (weights (network d ! Suc l ! k)) i)))
                   (Num 0) [0..<length (network d ! Suc l)])
                (activationFunctionDerivative d (input (cached (network d1 ! l ! i))))"
    using n(5) p trainingStep_frame(7) [OF f o h lN i] by simp
  show "biasUpdate (cached (network d3 ! l ! i)) =
           jmul (errorWrtIn (cached (network d3 ! l ! i))) (updateMultiplier d)"
    using n(6) p by simp
qed

lemma trainingStep_cached:
  assumes f: "feedInputs d inputs = Inr d1" and o: "proposeOutput d1 expected = Inr d2"
    and h: "proposeHidden d2 = Inr d3"
    and l: "l < length (network d)" and k: "k < length (network d ! l)"
  shows "cached (network (applyUpdates d3) ! l ! k) = cached (network d3 ! l ! k)"
    and "bias (network (applyUpdates d3) ! l ! k) = bias (network d ! l ! k)"
    and "length (weights (network (applyUpdates d3) ! l ! k)) = length (weights (network d ! l ! k))"
    and "\<And>i. i < length (weights (network d ! l ! k)) \<Longrightarrow>
          weights (network (applyUpdates d3) ! l ! k) ! i =
            jadd (weights (network d ! l ! k) ! i) (idx (weightUpdates (cached (network d3 ! l ! k))) i)"
proof -
  note s = trainingStep_states [OF f o h]
  have l3: "l < length (network d3)" using l s(3) by simp
  have k3: "k < length (network d3 ! l)" using k s(6) [OF l] by simp
  note a = applyUpdates_node [OF l3 k3]
  note fr = trainingStep_frame [OF f o h l k]
  show "cached (network (applyUpdates d3) ! l ! k) = cached (network d3 ! l ! k)" using a(1) .
  show "bias (network (applyUpdates d3) ! l ! k) = bias (network d ! l ! k)"
    using a(2) fr(4) by simp
  show "length (weights (network (applyUpdates d3) ! l ! k)) = length (weights (network d ! l ! k))"
    using a(3) fr(3) by simp
  show "\<And>i. i < length (weights (network d ! l ! k)) \<Longrightarrow>
          weights (network (applyUpdates d3) ! l ! k) ! i =
            jadd (weights (network d ! l ! k) ! i) (idx (weightUpdates (cached (network d3 ! l ! k))) i)"
    using a(4) fr(3) by simp
qed

lemma output_biasUpdate:
  assumes f: "feedInputs d inputs = Inr d1" and o: "proposeOutput d1 expected = Inr d2"
    and h: "proposeHidden d2 = Inr d3"
    and i: "i < length (network d ! (length (network d) - 1))"
  shows "biasUpdate (cached (network d3 ! (length (network d) - 1) ! i)) =
           jmul (errorWrtIn (cached (network d3 ! (length (network d) - 1) ! i))) (updateMultiplier d)"
proof -
  note s = trainingStep_states [OF f o h]
  note p = trainingStep_params [OF f o h]
  let ?L = "length (network d) - 1"
  have ne: "network d \<noteq> []" using feedInputs_Inr(1) [OF f] .
  then have L: "?L < length (network d)" by (cases "network d") simp_all
  have i1: "i < length (network d1 ! ?L)" using i s(4) [OF L] by simp
  have pn: "proposeOutputNode d1
             (if 2 \<le> length (network d1) then Some (network d1 ! (length (network d1) - 2)) else None)
             expected (network d1 ! ?L ! i) i = Inr (network d2 ! ?L ! i)"
    using proposeOutput_Inr(6) [OF o, of i] i1 s(1) by simp
  have d32: "network d3 ! ?L = network d2 ! ?L"
    using proposeHidden_Inr(3) [OF h, of ?L] s(2) by simp
  from proposeOutputNode_Inr(6) [OF pn] d32 p show ?thesis by simp
qed

lemma reduceError_cong:
  "map (\<lambda>n. output' (cached n)) ns = map (\<lambda>n. output' (cached n)) ms \<Longrightarrow>
   reduceError ef expected ns i s = reduceError ef expected ms i s"
proof (induction ns arbitrary: ms i s)
  case Nil
  then show ?case by simp
next
  case (Cons n ns)
  then obtain m ms' where ms: "ms = m # ms'" by (cases ms) auto
  with Cons.prems have "output' (cached n) = output' (cached m)"
    and "map (\<lambda>n. output' (cached n)) ns = map (\<lambda>n. output' (cached n)) ms'" by simp_all
  with Cons.IH [of ms'] ms show ?case by simp
qed

lemmas step_defs =
  trainingStep_def feedInputs_def setInputs_def forwardNode_def idx_def totalError_def outputs_def
  proposeUpdates_def proposeOutput_def proposeOutputNode_def mapWeights_def proposeHidden_def
  proposeHiddenNode_def applyUpdates_def applyNode_def node_new_def Let_def

section \<open>Training step: the hidden layers\<close>

text \<open>
  Claim C2. When \<open>trainingStep\<close> returns, every node at position \<open>i\<close> of a hidden
  layer \<open>l\<close> (after the input layer, before the output layer) has \<open>cached.errorWrtIn\<close>
  equal to the sum over every node \<open>k\<close> of layer \<open>l + 1\<close>, in order, of that node's
  \<open>cached.errorWrtIn\<close> times its weight \<open>weights[i]\<close>, multiplied by
  \<open>activationFunctionDerivative\<close> of the node's forward-pass \<open>cached.input\<close>. The
  \<open>errorWrtIn\<close> read from layer \<open>l + 1\<close> is the one this step stored there, so layer
  \<open>l + 1\<close> is done before layer \<open>l\<close>; the weights read are those from before the
  step. The input layer is left out: its \<open>errorWrtIn\<close> is as before the step.
\<close>

theorem trainingStep_hidden_layers:
  assumes "trainingStep d inputs expected = Inr d'" and "feedInputs d inputs = Inr d1"
  shows "(\<forall>l i. 0 < l \<and> l < length (network d) - 1 \<and> i < length (network d ! l) \<longrightarrow>
     errorWrtIn (cached (network d' ! l ! i)) =
       jmul (foldl (\<lambda>s k. jadd s (jmul (errorWrtIn (cached (network d' ! (l + 1) ! k)))
                                     (idx (weights (network d ! (l + 1) ! k)) i)))
               (Num 0) [0..<length (network d ! (l + 1))])
            (activationFunctionDerivative d (input (cached (network d1 ! l ! i))))) \<and>
    (2 \<le> length (network d) \<longrightarrow>
       (\<forall>i<length (network d ! 0).
          errorWrtIn (cached (network d' ! 0 ! i)) = errorWrtIn (cached (network d ! 0 ! i))))"
proof (intro conjI allI impI)
  from assms obtain d2 d3 where o: "proposeOutput d1 expected = Inr d2"
    and h: "proposeHidden d2 = Inr d3" and d': "d' = applyUpdates d3"
    by (auto elim!: trainingStep_phases)
  note f = assms(2)
  fix i assume big: "2 \<le> length (network d)" and i: "i < length (network d ! 0)"
  then have z: "0 < length (network d)" by linarith
  have "network d3 ! 0 = network d2 ! 0" using proposeHidden_Inr(3) [OF h, of 0] by simp
  moreover have "network d2 ! 0 = network d1 ! 0"
    using proposeOutput_Inr(4) [OF o, of 0] big feedInputs_Inr(3) [OF f] by simp
  ultimately show "errorWrtIn (cached (network d' ! 0 ! i)) = errorWrtIn (cached (network d ! 0 ! i))"
    using trainingStep_cached(1) [OF f o h z i] feedInputs_frame(5) [OF f z i]
    unfolding d' by simp
next
  fix l i assume li: "0 < l \<and> l < length (network d) - 1 \<and> i < length (network d ! l)"
  from assms obtain d2 d3 where o: "proposeOutput d1 expected = Inr d2"
    and h: "proposeHidden d2 = Inr d3" and d': "d' = applyUpdates d3"
    by (auto elim!: trainingStep_phases)
  note f = assms(2)
  from li have l: "0 < l" "l < length (network d) - 1" and i: "i < length (network d ! l)"
    by simp_all
  from l have lN: "l < length (network d)" and slN: "Suc l < length (network d)" by linarith+
  have c: "cached (network d' ! l ! i) = cached (network d3 ! l ! i)"
    unfolding d' using trainingStep_cached(1) [OF f o h lN i] .
  have "foldl (\<lambda>s k. jadd s (jmul (errorWrtIn (cached (network d' ! (l + 1) ! k)))
                                     (idx (weights (network d ! (l + 1) ! k)) i)))
               (Num 0) [0..<length (network d ! (l + 1))]
      = foldl (\<lambda>s k. jadd s (jmul (errorWrtIn (cached (network d3 ! Suc l ! k)))
                                         (idx (weights (network d ! Suc l ! k)) i)))
                   (Num 0) [0..<length (network d ! Suc l)]"
  proof (intro foldl_cong refl)
    show "[0..<length (network d ! (l + 1))] = [0..<length (network d ! Suc l)]" by simp
    fix a k assume "k \<in> set [0..<length (network d ! (l + 1))]"
    then have "k < length (network d ! Suc l)" by simp
    from trainingStep_cached(1) [OF f o h slN this]
    show "jadd a (jmul (errorWrtIn (cached (network d' ! (l + 1) ! k)))
                       (idx (weights (network d ! (l + 1) ! k)) i))
        = jadd a (jmul (errorWrtIn (cached (network d3 ! Suc l ! k)))
                       (idx (weights (network d ! Suc l ! k)) i))"
      unfolding d' by simp
  qed
  with hidden_fanin(1) [OF f o h l i] c
  show "errorWrtIn (cached (network d' ! l ! i)) =
       jmul (foldl (\<lambda>s k. jadd s (jmul (errorWrtIn (cached (network d' ! (l + 1) ! k)))
                                     (idx (weights (network d ! (l + 1) ! k)) i)))
               (Num 0) [0..<length (network d ! (l + 1))])
            (activationFunctionDerivative d (input (cached (network d1 ! l ! i))))"
    by simp
qed

theorem trainingStep_hidden_layers_witness:
  "\<exists>d1 d'. feedInputs example [Num 0.05, Num 0.1] = Inr d1 \<and>
     trainingStep example [Num 0.05, Num 0.1] [Num 0.01, Num 0.99] = Inr d' \<and>
     errorWrtIn (cached (network d' ! 1 ! 0)) =
       jmul (jadd (jadd (Num 0) (jmul (errorWrtIn (cached (network d' ! 2 ! 0))) (Num 0.4)))
                  (jmul (errorWrtIn (cached (network d' ! 2 ! 1))) (Num 0.5)))
            (example_activationFunctionDerivative (input (cached (network d1 ! 1 ! 0))))"
proof -
  from feedInputs_total [OF wellFormed_example]
  obtain d1 where f: "feedInputs example [Num 0.05, Num 0.1] = Inr d1" by blast
  from trainingStep_total [OF wellFormed_example]
  obtain d' where t: "trainingStep example [Num 0.05, Num 0.1] [Num 0.01, Num 0.99] = Inr d'"
    by blast
  have "0 < (1::nat) \<and> 1 < length (network example) - 1 \<and> 0 < length (network example ! 1)"
    by (simp add: example_def)
  with trainingStep_hidden_layers [OF t f]
  have "errorWrtIn (cached (network d' ! 1 ! 0)) =
       jmul (foldl (\<lambda>s k. jadd s (jmul (errorWrtIn (cached (network d' ! (1 + 1) ! k)))
                                     (idx (weights (network example ! (1 + 1) ! k)) 0)))
               (Num 0) [0..<length (network example ! (1 + 1))])
            (activationFunctionDerivative example (input (cached (network d1 ! 1 ! 0))))"
    by blast
  then have "errorWrtIn (cached (network d' ! 1 ! 0)) =
       jmul (jadd (jadd (Num 0) (jmul (errorWrtIn (cached (network d' ! 2 ! 0))) (Num 0.4)))
                  (jmul (errorWrtIn (cached (network d' ! 2 ! 1))) (Num 0.5)))
            (example_activationFunctionDerivative (input (cached (network d1 ! 1 ! 0))))"
    by (simp add: example_def node_new_def idx_def numeral_2_eq_2)
  with f t show ?thesis
    by - (rule exI [of _ d1], rule exI [of _ d'], (intro conjI; assumption))
qed

section \<open>Training step: propose, then apply\<close>

text \<open>
  Claim C3. A returning \<open>trainingStep\<close> goes through the states \<open>d1\<close> (after the forward
  pass), \<open>d2\<close> (after the proposals of the output layer) and \<open>d3\<close> (after the proposals
  of the hidden layers), and in each of them every node still has the weights it had
  before the step. So the sum a hidden node forms over the next layer uses the weights
  from before the step. Only then are the updates applied: every weight \<open>i\<close> of every
  node of every layer becomes \<open>weights[i] + cached.weightUpdates[i]\<close>, with the updates
  as proposed in \<open>d3\<close>.
\<close>

theorem trainingStep_two_phase:
  assumes "trainingStep d inputs expected = Inr d'"
  shows "\<exists>d1 d2 d3.
     feedInputs d inputs = Inr d1 \<and> proposeOutput d1 expected = Inr d2 \<and>
     proposeHidden d2 = Inr d3 \<and> d' = applyUpdates d3 \<and>
     map (map weights) (network d1) = map (map weights) (network d) \<and>
     map (map weights) (network d2) = map (map weights) (network d) \<and>
     map (map weights) (network d3) = map (map weights) (network d) \<and>
     (\<forall>l i. 0 < l \<and> l < length (network d) - 1 \<and> i < length (network d ! l) \<longrightarrow>
        errorWrtIn (cached (network d3 ! l ! i)) =
          jmul (foldl (\<lambda>s k. jadd s (jmul (errorWrtIn (cached (network d3 ! Suc l ! k)))
                                        (idx (weights (network d ! Suc l ! k)) i)))
                  (Num 0) [0..<length (network d ! Suc l)])
               (activationFunctionDerivative d (input (cached (network d3 ! l ! i))))) \<and>
     (\<forall>l k. l < length (network d) \<and> k < length (network d ! l) \<longrightarrow>
        length (weights (network d' ! l ! k)) = length (weights (network d ! l ! k)) \<and>
        (\<forall>i<length (weights (network d ! l ! k)).
           weights (network d' ! l ! k) ! i =
             jadd (weights (network d ! l ! k) ! i)
                  (idx (weightUpdates (cached (network d3 ! l ! k))) i)))"
proof -
  from assms obtain d1 d2 d3 where f: "feedInputs d inputs = Inr d1"
    and o: "proposeOutput d1 expected = Inr d2"
    and h: "proposeHidden d2 = Inr d3" and d': "d' = applyUpdates d3"
    by (auto elim!: trainingStep_phases)
  note s = trainingStep_states [OF f o h]
  note fr = trainingStep_frame [OF f o h]
  have w1: "map (map weights) (network d1) = map (map weights) (network d)"
    using s(1) s(4) fr(1) by (intro map_map_eqI) simp_all
  have w2: "map (map weights) (network d2) = map (map weights) (network d)"
    using s(2) s(5) fr(2) by (intro map_map_eqI) simp_all
  have w3: "map (map weights) (network d3) = map (map weights) (network d)"
    using s(3) s(6) fr(3) by (intro map_map_eqI) simp_all
  have fan: "\<forall>l i. 0 < l \<and> l < length (network d) - 1 \<and> i < length (network d ! l) \<longrightarrow>
        errorWrtIn (cached (network d3 ! l ! i)) =
          jmul (foldl (\<lambda>s k. jadd s (jmul (errorWrtIn (cached (network d3 ! Suc l ! k)))
                                        (idx (weights (network d ! Suc l ! k)) i)))
                  (Num 0) [0..<length (network d ! Suc l)])
               (activationFunctionDerivative d (input (cached (network d3 ! l ! i))))"
  proof (intro allI impI)
    fix l i assume li: "0 < l \<and> l < length (network d) - 1 \<and> i < length (network d ! l)"
    then have l: "0 < l" "l < length (network d) - 1" and i: "i < length (network d ! l)"
      by simp_all
    from l have lN: "l < length (network d)" by linarith
    from hidden_fanin(1) [OF f o h l i] fr(5) [OF lN i]
    show "errorWrtIn (cached (network d3 ! l ! i)) =
          jmul (foldl (\<lambda>s k. jadd s (jmul (errorWrtIn (cached (network d3 ! Suc l ! k)))
                                        (idx (weights (network d ! Suc l ! k)) i)))
                  (Num 0) [0..<length (network d ! Suc l)])
               (activationFunctionDerivative d (input (cached (network d3 ! l ! i))))"
      by simp
  qed
  have app: "\<forall>l k. l < length (network d) \<and> k < length (network d ! l) \<longrightarrow>
        length (weights (network d' ! l ! k)) = length (weights (network d ! l ! k)) \<and>
        (\<forall>i<length (weights (network d ! l ! k)).
           weights (network d' ! l ! k) ! i =
             jadd (weights (network d ! l ! k) ! i)
                  (idx (weightUpdates (cached (network d3 ! l ! k))) i))"
    unfolding d' using trainingStep_cached(3,4) [OF f o h] by blast
  from f o h d' w1 w2 w3 fan app show ?thesis by blast
qed

theorem trainingStep_two_phase_witness:
  "\<exists>d' d3. trainingStep example [Num 0.05, Num 0.1] [Num 0.01, Num 0.99] = Inr d' \<and>
     d' = applyUpdates d3 \<and>
     map (map weights) (network d3) =
       [[[], []], [[Num 0.15, Num 0.2], [Num 0.25, Num 0.3]], [[Num 0.4, Num 0.45], [Num 0.5, Num 0.55]]] \<and>
     weights (network d' ! 2 ! 0) ! 0 =
       jadd (Num 0.4) (idx (weightUpdates (cached (network d3 ! 2 ! 0))) 0)"
proof -
  from trainingStep_total [OF wellFormed_example]
  obtain d' where t: "trainingStep example [Num 0.05, Num 0.1] [Num 0.01, Num 0.99] = Inr d'"
    by blast
  from trainingStep_two_phase [OF t] obtain d3 where d': "d' = applyUpdates d3"
    and w: "map (map weights) (network d3) = map (map weights) (network example)"
    and a: "\<forall>l k. l < length (network example) \<and> k < length (network example ! l) \<longrightarrow>
        length (weights (network d' ! l ! k)) = length (weights (network example ! l ! k)) \<and>
        (\<forall>i<length (weights (network example ! l ! k)).
           weights (network d' ! l ! k) ! i =
             jadd (weights (network example ! l ! k) ! i)
                  (idx (weightUpdates (cached (network d3 ! l ! k))) i))"
    by blast
  have "2 < length (network example) \<and> 0 < length (network example ! 2)"
    and i: "0 < length (weights (network example ! 2 ! 0))"
    by (simp_all add: example_def node_new_def)
  with a have "\<forall>i<length (weights (network example ! 2 ! 0)).
           weights (network d' ! 2 ! 0) ! i =
             jadd (weights (network example ! 2 ! 0) ! i)
                  (idx (weightUpdates (cached (network d3 ! 2 ! 0))) i)" by blast
  with i have "weights (network d' ! 2 ! 0) ! 0 =
             jadd (weights (network example ! 2 ! 0) ! 0)
                  (idx (weightUpdates (cached (network d3 ! 2 ! 0))) 0)" by blast
  then have "weights (network d' ! 2 ! 0) ! 0 =
       jadd (Num 0.4) (idx (weightUpdates (cached (network d3 ! 2 ! 0))) 0)"
    by (simp add: example_def node_new_def)
  moreover from w have "map (map weights) (network d3) =
       [[[], []], [[Num 0.15, Num 0.2], [Num 0.25, Num 0.3]], [[Num 0.4, Num 0.45], [Num 0.5, Num 0.55]]]"
    by (simp add: example_def node_new_def)
  ultimately show ?thesis using t d'
    by - (rule exI [of _ d'], rule exI [of _ d3], (intro conjI; assumption))
qed

section \<open>Training step: the bias\<close>

text \<open>
  Claim C5. A returning \<open>trainingStep\<close> leaves the bias of every node as it was. The
  proposal \<open>cached.biasUpdate = errorWrtIn * updateMultiplier\<close> is stored in every node
  after the input layer, and the apply phase changes neither a bias nor a cached field:
  between the proposed state \<open>d3\<close> and the final state only weights differ.
\<close>

theorem trainingStep_bias_unchanged:
  assumes "trainingStep d inputs expected = Inr d'"
  shows "map (map bias) (network d') = map (map bias) (network d) \<and>
     (\<forall>l k. 0 < l \<and> l < length (network d) \<and> k < length (network d ! l) \<longrightarrow>
        biasUpdate (cached (network d' ! l ! k)) =
          jmul (errorWrtIn (cached (network d' ! l ! k))) (updateMultiplier d)) \<and>
     (\<exists>d1 d3. feedInputs d inputs = Inr d1 \<and> proposeUpdates d1 expected = Inr d3 \<and>
        d' = applyUpdates d3 \<and>
        map (map bias) (network d') = map (map bias) (network d3) \<and>
        map (map cached) (network d') = map (map cached) (network d3))"
proof -
  from assms obtain d1 d2 d3 where f: "feedInputs d inputs = Inr d1"
    and o: "proposeOutput d1 expected = Inr d2"
    and h: "proposeHidden d2 = Inr d3" and pu: "proposeUpdates d1 expected = Inr d3"
    and d': "d' = applyUpdates d3"
    by (auto elim!: trainingStep_phases)
  note s = trainingStep_states [OF f o h]
  note fr = trainingStep_frame [OF f o h]
  note c = trainingStep_cached [OF f o h]
  have len: "length (network d') = length (network d)"
    using d' s(3) by (simp add: applyUpdates_nth(1))
  have llen: "length (network d' ! l) = length (network d ! l)" if "l < length (network d)" for l
    using that d' s(3) s(6) by (simp add: applyUpdates_nth(2))
  have b: "map (map bias) (network d') = map (map bias) (network d)"
    using len llen c(2) unfolding d' by (intro map_map_eqI) simp_all
  have b3: "map (map bias) (network d') = map (map bias) (network d3)"
    using len llen s(3) s(6) c(2) fr(4) unfolding d' by (intro map_map_eqI) simp_all
  have c3: "map (map cached) (network d') = map (map cached) (network d3)"
    using len llen s(3) s(6) c(1) unfolding d' by (intro map_map_eqI) simp_all
  have bu: "\<forall>l k. 0 < l \<and> l < length (network d) \<and> k < length (network d ! l) \<longrightarrow>
        biasUpdate (cached (network d' ! l ! k)) =
          jmul (errorWrtIn (cached (network d' ! l ! k))) (updateMultiplier d)"
  proof (intro allI impI)
    fix l k assume lk: "0 < l \<and> l < length (network d) \<and> k < length (network d ! l)"
    then have l: "0 < l" "l < length (network d)" and k: "k < length (network d ! l)" by simp_all
    have "biasUpdate (cached (network d3 ! l ! k)) =
          jmul (errorWrtIn (cached (network d3 ! l ! k))) (updateMultiplier d)"
    proof (cases "l = length (network d) - 1")
      case True
      with output_biasUpdate [OF f o h, of k] k show ?thesis by simp
    next
      case False
      with l have "l < length (network d) - 1" by linarith
      from hidden_fanin(2) [OF f o h l(1) this k] show ?thesis .
    qed
    with c(1) [OF l(2) k] show "biasUpdate (cached (network d' ! l ! k)) =
          jmul (errorWrtIn (cached (network d' ! l ! k))) (updateMultiplier d)"
      unfolding d' by simp
  qed
  from b bu f pu d' b3 c3 show ?thesis by blast
qed

theorem trainingStep_bias_unchanged_witness:
  "\<exists>d'. trainingStep example [Num 0.05, Num 0.1] [Num 0.01, Num 0.99] = Inr d' \<and>
     map (map bias) (network d') = [[Num 0, Num 0], [Num 0.35, Num 0.35], [Num 0.6, Num 0.6]] \<and>
     biasUpdate (cached (network d' ! 2 ! 0)) =
       jmul (errorWrtIn (cached (network d' ! 2 ! 0))) (Num 0.5)"
proof -
  from trainingStep_total [OF wellFormed_example]
  obtain d' where t: "trainingStep example [Num 0.05, Num 0.1] [Num 0.01, Num 0.99] = Inr d'"
    by blast
  note b = trainingStep_bias_unchanged [OF t]
  from b have "map (map bias) (network d') = map (map bias) (network example)" by blast
  then have 1: "map (map bias) (network d') = [[Num 0, Num 0], [Num 0.35, Num 0.35], [Num 0.6, Num 0.6]]"
    by (simp add: example_def node_new_def)
  have "0 < (2::nat) \<and> 2 < length (network example) \<and> 0 < length (network example ! 2)"
    by (simp add: example_def)
  with b have "biasUpdate (cached (network d' ! 2 ! 0)) =
          jmul (errorWrtIn (cached (network d' ! 2 ! 0))) (updateMultiplier example)" by blast
  then have "biasUpdate (cached (network d' ! 2 ! 0)) =
       jmul (errorWrtIn (cached (network d' ! 2 ! 0))) (Num 0.5)"
    by (simp add: example_def)
  with t 1 show ?thesis
    by - (rule exI [of _ d'], (intro conjI; assumption))
qed

section \<open>Training step: the forward cache is from before the update\<close>

text \<open>
  Claim C10. When \<open>trainingStep(inputs, expected)\<close> returns, \<open>cached.input\<close> and
  \<open>cached.output\<close> of every node are those of the forward pass \<open>feedInputs(inputs)\<close>
  run on the state before the step, so \<open>outputs()\<close> and \<open>totalError(e)\<close> give what
  they give right after that forward pass. The witness runs the one-weight network: after
  the step the weight is 0 and \<open>outputs()\<close> is still 1, the value for the old weight 1;
  a new forward pass gives 0.
\<close>

theorem trainingStep_keeps_forward_cache:
  assumes "trainingStep d inputs expected = Inr d'"
  shows "\<exists>d1. feedInputs d inputs = Inr d1 \<and>
     map (map (\<lambda>n. input (cached n))) (network d') = map (map (\<lambda>n. input (cached n))) (network d1) \<and>
     map (map (\<lambda>n. output' (cached n))) (network d') = map (map (\<lambda>n. output' (cached n))) (network d1) \<and>
     outputs d' = outputs d1 \<and>
     (\<forall>e. totalError d' e = totalError d1 e)"
proof -
  from assms obtain d1 d2 d3 where f: "feedInputs d inputs = Inr d1"
    and o: "proposeOutput d1 expected = Inr d2"
    and h: "proposeHidden d2 = Inr d3" and d': "d' = applyUpdates d3"
    by (auto elim!: trainingStep_phases)
  note s = trainingStep_states [OF f o h]
  note fr = trainingStep_frame [OF f o h]
  note c = trainingStep_cached [OF f o h]
  note p = trainingStep_params [OF f o h]
  have len: "length (network d') = length (network d1)"
    using d' s(1,3) by (simp add: applyUpdates_nth(1))
  have llen: "length (network d' ! l) = length (network d1 ! l)" if "l < length (network d1)" for l
    using that d' s(1) s(3) s(4) s(6) by (simp add: applyUpdates_nth(2))
  have i: "map (map (\<lambda>n. input (cached n))) (network d') = map (map (\<lambda>n. input (cached n))) (network d1)"
    using len llen s(1) s(4) c(1) fr(5) unfolding d' by (intro map_map_eqI) simp_all
  have out: "map (map (\<lambda>n. output' (cached n))) (network d') = map (map (\<lambda>n. output' (cached n))) (network d1)"
    using len llen s(1) s(4) c(1) fr(6) unfolding d' by (intro map_map_eqI) simp_all
  have ne1: "network d1 \<noteq> []" using feedInputs_Inr(1) [OF f] s(1) by auto
  then have ne': "network d' \<noteq> []" using len by auto
  have "last (map (map (\<lambda>n. output' (cached n))) (network d'))
      = last (map (map (\<lambda>n. output' (cached n))) (network d1))" using out by simp
  then have lastout: "map (\<lambda>n. output' (cached n)) (last (network d'))
      = map (\<lambda>n. output' (cached n)) (last (network d1))"
    using ne1 ne' by (simp add: last_map)
  have outs: "outputs d' = outputs d1"
    using lastout ne1 ne' by (cases "network d'"; cases "network d1") (simp_all add: outputs_def)
  have ef: "errorFunction d' = errorFunction d1"
    using p d' by (simp add: applyUpdates_params)
  have te: "totalError d' e = totalError d1 e" for e
    using reduceError_cong [OF lastout] ne1 ne' ef
    by (cases "network d'"; cases "network d1") (simp_all add: totalError_def)
  from f i out outs te show ?thesis by blast
qed

theorem trainingStep_keeps_forward_cache_witness:
  "\<exists>d' d''. trainingStep linear_net [Num 1] [Num 0] = Inr d' \<and>
     map (map weights) (network d') = [[[]], [[Num 0]]] \<and>
     outputs d' = Inr [Num 1] \<and>
     feedInputs d' [Num 1] = Inr d'' \<and> outputs d'' = Inr [Num 0]"
proof -
  define d' where "d' = linear_net\<lparr>network :=
     [[\<lparr>weights = [], bias = Num 0,
        cached = \<lparr>input = Num 0, output' = Num 1, weightUpdates = [],
                  biasUpdate = Num 0, errorWrtIn = Num 0\<rparr>\<rparr>],
      [\<lparr>weights = [Num 0], bias = Num 0,
        cached = \<lparr>input = Num 1, output' = Num 1, weightUpdates = [Num (- 1)],
                  biasUpdate = Num 1, errorWrtIn = Num 1\<rparr>\<rparr>]]\<rparr>"
  define d'' where "d'' = linear_net\<lparr>network :=
     [[\<lparr>weights = [], bias = Num 0,
        cached = \<lparr>input = Num 0, output' = Num 1, weightUpdates = [],
                  biasUpdate = Num 0, errorWrtIn = Num 0\<rparr>\<rparr>],
      [\<lparr>weights = [Num 0], bias = Num 0,
        cached = \<lparr>input = Num 0, output' = Num 0, weightUpdates = [Num (- 1)],
                  biasUpdate = Num 1, errorWrtIn = Num 1\<rparr>\<rparr>]]\<rparr>"
  have t: "trainingStep linear_net [Num 1] [Num 0] = Inr d'"
    by (simp add: step_defs linear_net_def d'_def)
  have w: "map (map weights) (network d') = [[[]], [[Num 0]]]" by (simp add: d'_def)
  from trainingStep_keeps_forward_cache [OF t] obtain d1
    where f: "feedInputs linear_net [Num 1] = Inr d1" and o: "outputs d' = outputs d1" by blast
  from f have "outputs d1 = Inr [Num 1]"
    by (auto simp: step_defs linear_net_def)
  with o have o': "outputs d' = Inr [Num 1]" by simp
  have f'': "feedInputs d' [Num 1] = Inr d''"
    by (simp add: step_defs linear_net_def d'_def d''_def)
  have o'': "outputs d'' = Inr [Num 0]" by (simp add: outputs_def d''_def)
  from t w o' f'' o'' show ?thesis
    by - (rule exI [of _ d'], rule exI [of _ d''], (intro conjI; assumption))
qed

section \<open>Vectors of the wrong length\<close>

lemma idx_fit: "i < n \<Longrightarrow> idx (map (idx xs) [0..<n]) i = idx xs i"
  by (simp add: idx_def)

lemma setInputs_fit:
  "setInputs (map (idx inputs) [0..<length l0]) l0 = setInputs inputs l0"
  by (simp add: setInputs_def idx_fit)

lemma feedInputs_fit:
  "feedInputs d (map (idx inputs) [0..<length (network d ! 0)]) = feedInputs d inputs"
  by (cases "network d") (simp_all add: feedInputs_def setInputs_fit)

lemma proposeOutputNode_fit:
  "i < n \<Longrightarrow> proposeOutputNode d prev (map (idx expected) [0..<n]) nd i
             = proposeOutputNode d prev expected nd i"
  by (simp add: proposeOutputNode_def idx_fit)

lemma proposeOutput_fit:
  "proposeOutput d (map (idx expected) [0..<length (last (network d))]) = proposeOutput d expected"
proof -
  have *: "mapE (\<lambda>i. proposeOutputNode d prev (map (idx expected) [0..<length (last (network d))])
                    (last (network d) ! i) i) [0..<length (last (network d))]
      = mapE (\<lambda>i. proposeOutputNode d prev expected (last (network d) ! i) i)
          [0..<length (last (network d))]" for prev
    by (rule mapE_cong) (simp add: proposeOutputNode_fit)
  show ?thesis unfolding proposeOutput_def Let_def * ..
qed

lemma trainingStep_fit:
  "trainingStep d (map (idx inputs) [0..<length (network d ! 0)])
                  (map (idx expected) [0..<length (last (network d))])
   = trainingStep d inputs expected"
proof (cases "feedInputs d inputs")
  case (Inl e)
  then show ?thesis by (simp add: trainingStep_def feedInputs_fit)
next
  case (Inr d1)
  have ne: "network d \<noteq> []" using feedInputs_Inr(1) [OF Inr] .
  have len: "length (network d1) = length (network d)" using feedInputs_Inr(3) [OF Inr] .
  then have ne1: "network d1 \<noteq> []" using ne by auto
  have "length (network d) - 1 < length (network d)" using ne by (cases "network d") simp_all
  from feedInputs_layer_length [OF Inr this]
  have "length (last (network d1)) = length (last (network d))"
    using last_conv_nth [OF ne] last_conv_nth [OF ne1] len by simp
  with proposeOutput_fit [of d1 expected]
  have "proposeOutput d1 (map (idx expected) [0..<length (last (network d))])
          = proposeOutput d1 expected" by simp
  then have pu: "proposeUpdates d1 (map (idx expected) [0..<length (last (network d))])
          = proposeUpdates d1 expected" by (simp add: proposeUpdates_def)
  have te: "\<exists>v. totalError d1 e = Inr v" for e
    using ne1 by (cases "network d1") (simp_all add: totalError_def)
  from te obtain v1 where v1: "totalError d1 expected = Inr v1" by blast
  from te obtain v2
    where v2: "totalError d1 (map (idx expected) [0..<length (last (network d))]) = Inr v2"
    by blast
  show ?thesis by (simp add: trainingStep_def feedInputs_fit Inr v1 v2 pu split: sum.splits)
qed

text \<open>
  Claim C6, as the code has it. Neither \<open>feedInputs\<close> nor \<open>trainingStep\<close> looks at
  the length of \<open>inputs\<close> or \<open>expected\<close>. On a well-formed network both return
  normally for vectors of any length and update the nodes as usual: input node \<open>i\<close> gets
  \<open>inputs[i]\<close>, which is \<open>undefined\<close> when the vector is too short, and entries beyond
  the number of nodes are never read. A call gives what it gives on the vector cut or
  filled with \<open>undefined\<close> to the length of the layer.
\<close>

theorem no_shape_check:
  assumes "wellFormed d"
  shows "(\<exists>d'. feedInputs d inputs = Inr d' \<and>
            (\<forall>i<length (network d ! 0). output' (cached (network d' ! 0 ! i)) = idx inputs i)) \<and>
         (\<exists>d'. trainingStep d inputs expected = Inr d') \<and>
         feedInputs d inputs = feedInputs d (map (idx inputs) [0..<length (network d ! 0)]) \<and>
         trainingStep d inputs expected =
           trainingStep d (map (idx inputs) [0..<length (network d ! 0)])
                          (map (idx expected) [0..<length (last (network d))])"
proof (intro conjI)
  from feedInputs_total [OF assms] obtain d' where f: "feedInputs d inputs = Inr d'" by blast
  have "\<forall>i<length (network d ! 0). output' (cached (network d' ! 0 ! i)) = idx inputs i"
    using feedInputs_Inr(4) [OF f] by (simp add: nth_setInputs)
  with f show "\<exists>d'. feedInputs d inputs = Inr d' \<and>
            (\<forall>i<length (network d ! 0). output' (cached (network d' ! 0 ! i)) = idx inputs i)"
    by blast
  show "\<exists>d'. trainingStep d inputs expected = Inr d'" using assms by (rule trainingStep_total)
  show "feedInputs d inputs = feedInputs d (map (idx inputs) [0..<length (network d ! 0)])"
    by (simp add: feedInputs_fit)
  show "trainingStep d inputs expected =
           trainingStep d (map (idx inputs) [0..<length (network d ! 0)])
                          (map (idx expected) [0..<length (last (network d))])"
    by (simp add: trainingStep_fit)
qed

theorem no_shape_check_witness:
  "wellFormed example \<and>
   (\<exists>d'. feedInputs example [Num 0.05] = Inr d' \<and>
      output' (cached (network d' ! 0 ! 0)) = Num 0.05 \<and>
      output' (cached (network d' ! 0 ! 1)) = Undefined) \<and>
   feedInputs example [Num 0.05, Num 0.1, Num 7] = feedInputs example [Num 0.05, Num 0.1] \<and>
   trainingStep example [Num 0.05, Num 0.1] [Num 0.01, Num 0.99, Num 3] =
     trainingStep example [Num 0.05, Num 0.1] [Num 0.01, Num 0.99]"
proof (intro conjI)
  show wf: "wellFormed example" by (rule wellFormed_example)
  have l0: "length (network example ! 0) = 2" and ll: "length (last (network example)) = 2"
    by (simp_all add: example_def)
  have upt2: "[0..<2] = [0, 1]" by (simp add: upt_rec)
  from no_shape_check [OF wf, of "[Num 0.05]" "[]"]
  obtain d' where f: "feedInputs example [Num 0.05] = Inr d'"
    and o: "\<forall>i<length (network example ! 0). output' (cached (network d' ! 0 ! i)) = idx [Num 0.05] i"
    by blast
  from o l0 have "output' (cached (network d' ! 0 ! 0)) = idx [Num 0.05] 0"
    "output' (cached (network d' ! 0 ! 1)) = idx [Num 0.05] 1" by simp_all
  then have "output' (cached (network d' ! 0 ! 0)) = Num 0.05"
    "output' (cached (network d' ! 0 ! 1)) = Undefined" by (simp_all add: idx_def)
  with f show "\<exists>d'. feedInputs example [Num 0.05] = Inr d' \<and>
      output' (cached (network d' ! 0 ! 0)) = Num 0.05 \<and>
      output' (cached (network d' ! 0 ! 1)) = Undefined"
    by - (rule exI [of _ d'], (intro conjI; assumption))
  from no_shape_check [OF wf, of "[Num 0.05, Num 0.1, Num 7]" "[]"]
  have "feedInputs example [Num 0.05, Num 0.1, Num 7] =
        feedInputs example (map (idx [Num 0.05, Num 0.1, Num 7]) [0..<length (network example ! 0)])"
    by blast
  then show "feedInputs example [Num 0.05, Num 0.1, Num 7] = feedInputs example [Num 0.05, Num 0.1]"
    by (simp add: l0 upt2 idx_def)
  from no_shape_check [OF wf, of "[Num 0.05, Num 0.1]" "[Num 0.01, Num 0.99, Num 3]"]
  have "trainingStep example [Num 0.05, Num 0.1] [Num 0.01, Num 0.99, Num 3] =
           trainingStep example (map (idx [Num 0.05, Num 0.1]) [0..<length (network example ! 0)])
              (map (idx [Num 0.01, Num 0.99, Num 3]) [0..<length (last (network example))])"
    by blast
  then show "trainingStep example [Num 0.05, Num 0.1] [Num 0.01, Num 0.99, Num 3] =
     trainingStep example [Num 0.05, Num 0.1] [Num 0.01, Num 0.99]"
    by (simp add: l0 ll upt2 idx_def)
qed

text \<open>
  The claim as stated fails: with one input too many, and with one expected value too
  many, the calls on the one-weight network return normally and leave a changed state.
\<close>

theorem no_shape_check_counterexample:
  "length [Num 1, Num 2] \<noteq> length (network linear_net ! 0) \<and>
   feedInputs linear_net [Num 1, Num 2] =
     Inr (linear_net\<lparr>network :=
       [[\<lparr>weights = [], bias = Num 0,
          cached = \<lparr>input = Num 0, output' = Num 1, weightUpdates = [],
                    biasUpdate = Num 0, errorWrtIn = Num 0\<rparr>\<rparr>],
        [\<lparr>weights = [Num 1], bias = Num 0,
          cached = \<lparr>input = Num 1, output' = Num 1, weightUpdates = [Num 0],
                    biasUpdate = Num 0, errorWrtIn = Num 0\<rparr>\<rparr>]]\<rparr>) \<and>
   length [Num 0, Num 5] \<noteq> length (last (network linear_net)) \<and>
   trainingStep linear_net [Num 1] [Num 0, Num 5] =
     Inr (linear_net\<lparr>network :=
       [[\<lparr>weights = [], bias = Num 0,
          cached = \<lparr>input = Num 0, output' = Num 1, weightUpdates = [],
                    biasUpdate = Num 0, errorWrtIn = Num 0\<rparr>\<rparr>],
        [\<lparr>weights = [Num 0], bias = Num 0,
          cached = \<lparr>input = Num 1, output' = Num 1, weightUpdates = [Num (- 1)],
                    biasUpdate = Num 1, errorWrtIn = Num 1\<rparr>\<rparr>]]\<rparr>)"
  by (simp add: step_defs linear_net_def)

section \<open>Construction\<close>

text \<open>
  Claim C8, as the code has it. \<open>Network(definition)\<close> stores the definition and checks
  nothing: construction succeeds for every definition, whatever its topology.
\<close>

theorem Network_no_validation: "Network d = Inr d"
  by (simp add: Network_def)

text \<open>
  The claim as stated fails: a network of a single layer, and one whose second-layer node
  has three weights for one node before it, are both constructed without an error.
\<close>

theorem Network_no_validation_counterexample:
  "length (network (example\<lparr>network := [[node_new [] (Num 0)]]\<rparr>)) < 2 \<and>
   Network (example\<lparr>network := [[node_new [] (Num 0)]]\<rparr>)
     = Inr (example\<lparr>network := [[node_new [] (Num 0)]]\<rparr>) \<and>
   length (weights (node_new [Num 1, Num 2, Num 3] (Num 0))) \<noteq> length [node_new [] (Num 0)] \<and>
   Network (example\<lparr>network := [[node_new [] (Num 0)], [node_new [Num 1, Num 2, Num 3] (Num 0)]]\<rparr>)
     = Inr (example\<lparr>network := [[node_new [] (Num 0)], [node_new [Num 1, Num 2, Num 3] (Num 0)]]\<rparr>)"
  by (simp add: Network_def node_new_def)

section \<open>The worked example\<close>

text \<open>Bounds of the exponential function from its Taylor polynomials.\<close>

lemma exp_taylor_remainder:
  fixes x :: real
  shows "\<exists>r. 0 < r \<and> exp x = (\<Sum>m<n. x ^ m / fact m) + r * x ^ n"
proof -
  from Maclaurin_exp_le [of x n] obtain t
    where "exp x = (\<Sum>m<n. x ^ m / fact m) + (exp t / fact n) * x ^ n" by blast
  moreover have "0 < exp t / fact n" by simp
  ultimately show ?thesis by blast
qed

lemma exp_lower_6:
  fixes x :: real
  shows "1 + x + x^2 / 2 + x^3 / 6 + x^4 / 24 + x^5 / 120 \<le> exp x"
proof -
  from exp_taylor_remainder [of x 6] obtain r
    where r: "0 < r" and e: "exp x = (\<Sum>m<6. x ^ m / fact m) + r * x ^ 6" by blast
  have "0 \<le> x ^ 6" by (rule zero_le_even_power) simp
  with r have "0 \<le> r * x ^ 6" by simp
  moreover have "(\<Sum>m<6. x ^ m / fact m) = 1 + x + x^2 / 2 + x^3 / 6 + x^4 / 24 + x^5 / 120"
    by (simp add: eval_nat_numeral)
  ultimately show ?thesis using e by linarith
qed

lemma exp_upper_7:
  fixes x :: real
  assumes "x \<le> 0"
  shows "exp x \<le> 1 + x + x^2 / 2 + x^3 / 6 + x^4 / 24 + x^5 / 120 + x^6 / 720"
proof -
  from exp_taylor_remainder [of x 7] obtain r
    where r: "0 < r" and e: "exp x = (\<Sum>m<7. x ^ m / fact m) + r * x ^ 7" by blast
  have "x ^ 7 \<le> 0" using assms by (simp add: odd_power_less_zero power_le_zero_eq)
  with r have "r * x ^ 7 \<le> 0" by (simp add: mult_le_0_iff)
  moreover have "(\<Sum>m<7. x ^ m / fact m)
      = 1 + x + x^2 / 2 + x^3 / 6 + x^4 / 24 + x^5 / 120 + x^6 / 720"
    by (simp add: eval_nat_numeral)
  ultimately show ?thesis using e by linarith
qed

lemma exp_lower_10:
  fixes x :: real
  shows "1 + x + x^2 / 2 + x^3 / 6 + x^4 / 24 + x^5 / 120 + x^6 / 720 + x^7 / 5040
           + x^8 / 40320 + x^9 / 362880 \<le> exp x"
proof -
  from exp_taylor_remainder [of x 10] obtain r
    where r: "0 < r" and e: "exp x = (\<Sum>m<10. x ^ m / fact m) + r * x ^ 10" by blast
  have "0 \<le> x ^ 10" by (rule zero_le_even_power) simp
  with r have "0 \<le> r * x ^ 10" by simp
  moreover have "(\<Sum>m<10. x ^ m / fact m) = 1 + x + x^2 / 2 + x^3 / 6 + x^4 / 24 + x^5 / 120
      + x^6 / 720 + x^7 / 5040 + x^8 / 40320 + x^9 / 362880"
    by (simp add: eval_nat_numeral)
  ultimately show ?thesis using e by linarith
qed

lemma exp_upper_11:
  fixes x :: real
  assumes "x \<le> 0"
  shows "exp x \<le> 1 + x + x^2 / 2 + x^3 / 6 + x^4 / 24 + x^5 / 120 + x^6 / 720 + x^7 / 5040
           + x^8 / 40320 + x^9 / 362880 + x^10 / 3628800"
proof -
  from exp_taylor_remainder [of x 11] obtain r
    where r: "0 < r" and e: "exp x = (\<Sum>m<11. x ^ m / fact m) + r * x ^ 11" by blast
  have "x ^ 11 \<le> 0" using assms by (simp add: odd_power_less_zero power_le_zero_eq)
  with r have "r * x ^ 11 \<le> 0" by (simp add: mult_le_0_iff)
  moreover have "(\<Sum>m<11. x ^ m / fact m) = 1 + x + x^2 / 2 + x^3 / 6 + x^4 / 24 + x^5 / 120
      + x^6 / 720 + x^7 / 5040 + x^8 / 40320 + x^9 / 362880 + x^10 / 3628800"
    by (simp add: eval_nat_numeral)
  ultimately show ?thesis using e by linarith
qed

lemma e1_bounds: "0.68556 \<le> exp (- (151 / 400) :: real)" "exp (- (151 / 400) :: real) \<le> 0.68558"
proof -
  have "(0.68556::real) \<le> 1 + (- (151 / 400)) + (- (151 / 400))^2 / 2 + (- (151 / 400))^3 / 6
      + (- (151 / 400))^4 / 24 + (- (151 / 400))^5 / 120"
    by (simp add: power_numeral_reduce)
  also have "\<dots> \<le> exp (- (151 / 400))" by (rule exp_lower_6)
  finally show "0.68556 \<le> exp (- (151 / 400) :: real)" .
  have "exp (- (151 / 400) :: real) \<le> 1 + (- (151 / 400)) + (- (151 / 400))^2 / 2 + (- (151 / 400))^3 / 6
      + (- (151 / 400))^4 / 24 + (- (151 / 400))^5 / 120 + (- (151 / 400))^6 / 720"
    by (rule exp_upper_7) simp
  also have "\<dots> \<le> 0.68558" by (simp add: power_numeral_reduce)
  finally show "exp (- (151 / 400) :: real) \<le> 0.68558" .
qed

lemma e2_bounds: "0.67536 \<le> exp (- (157 / 400) :: real)" "exp (- (157 / 400) :: real) \<le> 0.67537"
proof -
  have "(0.67536::real) \<le> 1 + (- (157 / 400)) + (- (157 / 400))^2 / 2 + (- (157 / 400))^3 / 6
      + (- (157 / 400))^4 / 24 + (- (157 / 400))^5 / 120"
    by (simp add: power_numeral_reduce)
  also have "\<dots> \<le> exp (- (157 / 400))" by (rule exp_lower_6)
  finally show "0.67536 \<le> exp (- (157 / 400) :: real)" .
  have "exp (- (157 / 400) :: real) \<le> 1 + (- (157 / 400)) + (- (157 / 400))^2 / 2 + (- (157 / 400))^3 / 6
      + (- (157 / 400))^4 / 24 + (- (157 / 400))^5 / 120 + (- (157 / 400))^6 / 720"
    by (rule exp_upper_7) simp
  also have "\<dots> \<le> 0.67537" by (simp add: power_numeral_reduce)
  finally show "exp (- (157 / 400) :: real) \<le> 0.67537" .
qed

lemma e3_bounds:
  fixes N :: real
  assumes "- (3456 / 3125) \<le> N" and "N \<le> - (11059 / 10000)"
  shows "0.3309 \<le> exp N" and "exp N \<le> 0.33092"
proof -
  let ?a = "- (3456 / 3125) :: real" and ?b = "- (11059 / 10000) :: real"
  have "(0.3309::real) \<le> 1 + ?a + ?a^2 / 2 + ?a^3 / 6 + ?a^4 / 24 + ?a^5 / 120 + ?a^6 / 720
           + ?a^7 / 5040 + ?a^8 / 40320 + ?a^9 / 362880"
    by (simp add: power_numeral_reduce)
  also have "\<dots> \<le> exp ?a" by (rule exp_lower_10)
  also have "\<dots> \<le> exp N" using assms(1) by simp
  finally show "0.3309 \<le> exp N" .
  have "exp N \<le> exp ?b" using assms(2) by simp
  also have "\<dots> \<le> 1 + ?b + ?b^2 / 2 + ?b^3 / 6 + ?b^4 / 24 + ?b^5 / 120 + ?b^6 / 720
           + ?b^7 / 5040 + ?b^8 / 40320 + ?b^9 / 362880 + ?b^10 / 3628800"
    by (rule exp_upper_11) simp
  also have "\<dots> \<le> 0.33092" by (simp add: power_numeral_reduce)
  finally show "exp N \<le> 0.33092" .
qed

lemma net_bounds:
  fixes e1 e2 :: real
  assumes "0.68556 \<le> e1" "e1 \<le> 0.68558" "0.67536 \<le> e2" "e2 \<le> 0.67537"
  shows "- (3456 / 3125) \<le> - (2 / (5 + e1 * 5)) - 9 / (20 + e2 * 20) - 3 / 5"
    and "- (2 / (5 + e1 * 5)) - 9 / (20 + e2 * 20) - 3 / 5 \<le> - (11059 / 10000)"
proof -
  have p1: "0 < 5 + e1 * 5" and p2: "0 < 20 + e2 * 20" using assms by simp_all
  have a_hi: "2 / (5 + e1 * 5) \<le> 0.23731"
    using assms(1) p1 by (simp add: pos_divide_le_eq)
  have a_lo: "0.237307 \<le> 2 / (5 + e1 * 5)"
    using assms(2) p1 by (simp add: pos_le_divide_eq)
  have b_hi: "9 / (20 + e2 * 20) \<le> 0.2686"
    using assms(3) p2 by (simp add: pos_divide_le_eq)
  have b_lo: "0.268597 \<le> 9 / (20 + e2 * 20)"
    using assms(4) p2 by (simp add: pos_le_divide_eq)
  show "- (3456 / 3125) \<le> - (2 / (5 + e1 * 5)) - 9 / (20 + e2 * 20) - 3 / 5"
    using a_hi b_hi by simp
  show "- (2 / (5 + e1 * 5)) - 9 / (20 + e2 * 20) - 3 / 5 \<le> - (11059 / 10000)"
    using a_lo b_lo by simp
qed

lemma w5_bounds:
  fixes e1 e3 :: real
  assumes "0.68556 \<le> e1" "e1 \<le> 0.68558" "0.3309 \<le> e3" "e3 \<le> 0.33092"
  shows "\<bar>2 / 5 - (1 / (1 + e3) - 1 / 100) * (1 - 1 / (1 + e3)) / ((1 + e3) * (1 + e1) * 2)
           - 0.3589\<bar> < 0.00005"
proof -
  define g where "g = 1 / (1 + e3)"
  have p3: "0 < 1 + e3" using assms by simp
  have g_lo: "0.75135 \<le> g" unfolding g_def using assms(4) p3 by (simp add: pos_le_divide_eq)
  have g_hi: "g \<le> 0.75138" unfolding g_def using assms(3) p3 by (simp add: pos_divide_le_eq)
  have n_lo: "0.74135 * 0.24862 \<le> (g - 1 / 100) * (1 - g)"
    using g_lo g_hi by (intro mult_mono) simp_all
  have n_hi: "(g - 1 / 100) * (1 - g) \<le> 0.74138 * 0.24865"
    using g_lo g_hi by (intro mult_mono) simp_all
  have d_lo: "1.3309 * 1.68556 * 2 \<le> (1 + e3) * (1 + e1) * 2"
    using assms by (intro mult_mono) simp_all
  have d_hi: "(1 + e3) * (1 + e1) * 2 \<le> 1.33092 * 1.68558 * 2"
    using assms by (intro mult_mono) simp_all
  have "(g - 1 / 100) * (1 - g) / ((1 + e3) * (1 + e1) * 2)
          \<le> (0.74138 * 0.24865) / (1.3309 * 1.68556 * 2)"
    using n_hi d_lo n_lo by (intro frac_le) simp_all
  also have "\<dots> < (0.04109 :: real)" by simp
  finally have P_hi: "(g - 1 / 100) * (1 - g) / ((1 + e3) * (1 + e1) * 2) < 0.04109" .
  have "(0.04107 :: real) < (0.74135 * 0.24862) / (1.33092 * 1.68558 * 2)" by simp
  also have "\<dots> \<le> (g - 1 / 100) * (1 - g) / ((1 + e3) * (1 + e1) * 2)"
    using n_lo d_hi d_lo by (intro frac_le) simp_all
  finally have P_lo: "0.04107 < (g - 1 / 100) * (1 - g) / ((1 + e3) * (1 + e1) * 2)" .
  from P_lo P_hi show ?thesis unfolding g_def by (simp add: abs_less_iff)
qed

lemma example_w5_value:
  "weights (network (projr (trainingStep example [Num 0.05, Num 0.1] [Num 0.01, Num 0.99])) ! 2 ! 0) ! 0
     = Num (2 / 5 -
         (1 / (1 + exp (- (2 / (5 + exp (- (151 / 400)) * 5)) -
                        9 / (20 + exp (- (157 / 400)) * 20) - 3 / 5)) - 1 / 100) *
         (1 - 1 / (1 + exp (- (2 / (5 + exp (- (151 / 400)) * 5)) -
                            9 / (20 + exp (- (157 / 400)) * 20) - 3 / 5))) /
         ((1 + exp (- (2 / (5 + exp (- (151 / 400)) * 5)) -
                    9 / (20 + exp (- (157 / 400)) * 20) - 3 / 5)) *
          (1 + exp (- (151 / 400))) * 2))"
  by (simp add: step_defs example_def)

text \<open>
  Claim C9. On the network of \<open>example.js\<close> one \<open>trainingStep\<close> with inputs
  \<open>[0.05, 0.10]\<close> and expected \<open>[0.01, 0.99]\<close> returns, and afterwards the first
  weight of the first output node is a number within \<open>0.00005\<close> of \<open>0.3589\<close> (in
  exact real arithmetic).
\<close>

theorem example_first_step_w5:
  "\<exists>d' w5. trainingStep example [Num 0.05, Num 0.1] [Num 0.01, Num 0.99] = Inr d' \<and>
     weights (network d' ! 2 ! 0) ! 0 = Num w5 \<and> \<bar>w5 - 0.3589\<bar> < 0.00005"
proof -
  from trainingStep_total [OF wellFormed_example]
  obtain d' where t: "trainingStep example [Num 0.05, Num 0.1] [Num 0.01, Num 0.99] = Inr d'"
    by blast
  then have d': "projr (trainingStep example [Num 0.05, Num 0.1] [Num 0.01, Num 0.99]) = d'"
    by simp
  define N :: real where "N = - (2 / (5 + exp (- (151 / 400)) * 5)) -
                        9 / (20 + exp (- (157 / 400)) * 20) - 3 / 5"
  define w5 :: real where "w5 = 2 / 5 - (1 / (1 + exp N) - 1 / 100) * (1 - 1 / (1 + exp N)) /
         ((1 + exp N) * (1 + exp (- (151 / 400))) * 2)"
  have w: "weights (network d' ! 2 ! 0) ! 0 = Num w5"
    using example_w5_value unfolding d' w5_def N_def .
  note n = net_bounds [OF e1_bounds e2_bounds, folded N_def]
  note e3 = e3_bounds [OF n]
  have "\<bar>w5 - 0.3589\<bar> < 0.00005"
    unfolding w5_def using e1_bounds e3 by (rule w5_bounds)
  with t w show ?thesis
    by - (rule exI [of _ d'], rule exI [of _ w5], (intro conjI; assumption))
qed

end
